theory Spec2Isabelle
  imports Complex_Main
begin

section \<open>Python values\<close>

text \<open>
  The exceptions that the modelled functions can meet. \<open>SpotifyException\<close> and
  \<open>RequestException\<close> are the two that the application catches; the others are raised
  by built-in operations on a value of the wrong type and are caught nowhere, except
  \<open>ValueError\<close> and \<open>TypeError\<close> around the tempo coercion.
\<close>

datatype py_error =
    ValueError | TypeError | AttributeError | OverflowError
  | SpotifyException | RequestException

text \<open>A Python float: a finite value (kept as the real number it denotes), an infinity or NaN.\<close>

datatype pyfloat = Fin real | PInf | NInf | NaN

text \<open>
  What \<open>json.loads\<close> and \<open>response.json()\<close> return. Python's \<open>None\<close> is \<open>JNull\<close>;
  a dict is an association list that is read with \<open>map_of\<close>.
\<close>

datatype json =
    JNull | JBool bool | JInt int | JFloat pyfloat | JStr string
  | JList "json list" | JObj "(string \<times> json) list"

text \<open>Truth value testing (\<open>if x:\<close>, \<open>not x\<close>, \<open>x and y\<close>).\<close>

fun truthy :: "json \<Rightarrow> bool" where
  "truthy JNull = False"
| "truthy (JBool b) = b"
| "truthy (JInt n) = (n \<noteq> 0)"
| "truthy (JFloat f) = (f \<noteq> Fin 0)"
| "truthy (JStr s) = (s \<noteq> [])"
| "truthy (JList xs) = (xs \<noteq> [])"
| "truthy (JObj kvs) = (kvs \<noteq> [])"

text \<open>
  \<open>obj.get(key)\<close> and \<open>obj.get(key, default)\<close>: only a dict has the method; a missing
  key gives \<open>None\<close> or the default, a key that is present gives its value.
\<close>

definition py_get :: "json \<Rightarrow> string \<Rightarrow> py_error + json" where
  "py_get obj k =
     (case obj of
        JObj kvs \<Rightarrow> Inr (case map_of kvs k of None \<Rightarrow> JNull | Some v \<Rightarrow> v)
      | _ \<Rightarrow> Inl AttributeError)"

definition py_get_default :: "json \<Rightarrow> string \<Rightarrow> json \<Rightarrow> py_error + json" where
  "py_get_default obj k d =
     (case obj of
        JObj kvs \<Rightarrow> Inr (case map_of kvs k of None \<Rightarrow> d | Some v \<Rightarrow> v)
      | _ \<Rightarrow> Inl AttributeError)"

text \<open>
  A naive \<open>datetime\<close> is the number of microseconds of its wall-clock reading since
  0001-01-01 00:00:00; an aware one carries its UTC offset as well.
\<close>

datatype datetime = Datetime (naive: int) (tzinfo: "int option")

text \<open>
  The library functions whose results the program only passes on are parameters of the
  model: \<open>datetime.fromisoformat\<close> and \<open>float\<close> on a string (\<open>None\<close> is their
  \<open>ValueError\<close>), \<open>float\<close> on an integer (\<open>None\<close> is its \<open>OverflowError\<close>, for an
  integer beyond the range of a double), and the text that SQLite writes for
  \<open>CURRENT_TIMESTAMP\<close> at a given time.
\<close>

record builtins =
  fromisoformat :: "string \<Rightarrow> datetime option"
  float_of_str :: "string \<Rightarrow> pyfloat option"
  float_of_int :: "int \<Rightarrow> pyfloat option"
  current_timestamp :: "int \<Rightarrow> string"

text \<open>\<open>float(x)\<close> on a JSON value.\<close>

definition py_float :: "builtins \<Rightarrow> json \<Rightarrow> py_error + pyfloat" where
  "py_float b v =
     (case v of
        JNull \<Rightarrow> Inl TypeError
      | JBool x \<Rightarrow> Inr (Fin (if x then 1 else 0))
      | JInt n \<Rightarrow> (case float_of_int b n of None \<Rightarrow> Inl OverflowError | Some f \<Rightarrow> Inr f)
      | JFloat f \<Rightarrow> Inr f
      | JStr s \<Rightarrow> (case float_of_str b s of None \<Rightarrow> Inl ValueError | Some f \<Rightarrow> Inr f)
      | JList _ \<Rightarrow> Inl TypeError
      | JObj _ \<Rightarrow> Inl TypeError)"

section \<open>cache.py: helpers\<close>

definition CACHE_TTL_DAYS :: int where
  "CACHE_TTL_DAYS = 30"

text \<open>
  \<open>timedelta(days=days)\<close> in microseconds; the constructor refuses a magnitude above
  999999999 days.
\<close>

definition timedelta_days :: "int \<Rightarrow> py_error + int" where
  "timedelta_days days =
     (if \<bar>days\<bar> > 999999999 then Inl OverflowError else Inr (days * 86400000000))"

text \<open>The argument of \<open>is_stale\<close> is a \<open>Union[str, datetime]\<close>.\<close>

datatype last_fetched = LfStr string | LfDatetime datetime

text \<open>
  \<open>is_stale(last_fetched, days)\<close> at the time \<open>now\<close>, the reading of
  \<open>datetime.utcnow()\<close> in microseconds. A string that does not parse is stale; the time
  zone of an aware value is dropped, its wall-clock reading kept.
\<close>

definition is_stale :: "builtins \<Rightarrow> int \<Rightarrow> last_fetched \<Rightarrow> int \<Rightarrow> py_error + bool" where
  "is_stale b now lf days =
     (case (case lf of LfStr s \<Rightarrow> fromisoformat b s | LfDatetime d \<Rightarrow> Some d) of
        None \<Rightarrow> Inr True
      | Some d \<Rightarrow>
          (let d' = (if tzinfo d \<noteq> None then Datetime (naive d) None else d)
           in case timedelta_days days of
                Inl e \<Rightarrow> Inl e
              | Inr ttl \<Rightarrow> Inr (now - naive d' > ttl)))"

text \<open>
  String operations of \<open>extract_spotify_id_from_href\<close>, for a separator that is not empty.
  \<open>partition_at sep s\<close> cuts \<open>s\<close> at the first occurrence of \<open>sep\<close>, if there is one;
  \<open>sep in s\<close> and \<open>s.split(sep, maxsplit=1)\<close> are read off it.
\<close>

definition startswith :: "string \<Rightarrow> string \<Rightarrow> bool" where
  "startswith sep s = (take (length sep) s = sep)"

fun partition_at :: "string \<Rightarrow> string \<Rightarrow> (string \<times> string) option" where
  "partition_at sep [] = None"
| "partition_at sep (c # cs) =
     (if startswith sep (c # cs) then Some ([], drop (length sep) (c # cs))
      else case partition_at sep cs of
             None \<Rightarrow> None
           | Some (before, rest) \<Rightarrow> Some (c # before, rest))"

definition py_in :: "string \<Rightarrow> string \<Rightarrow> bool" where
  "py_in sep s = (partition_at sep s \<noteq> None)"

definition py_split1 :: "string \<Rightarrow> string \<Rightarrow> string list" where
  "py_split1 sep s =
     (case partition_at sep s of None \<Rightarrow> [s] | Some (before, rest) \<Rightarrow> [before, rest])"

text \<open>
  \<open>extract_spotify_id_from_href(href)\<close>, on whatever \<open>obj.get("href")\<close> gave. A falsy
  value gives \<open>None\<close>; a truthy value that is not a string fails at \<open>"track/" in href\<close>
  (a number or a boolean) or at \<open>.split\<close> (a list or a dict).
\<close>

definition extract_spotify_id_from_href :: "json \<Rightarrow> py_error + string option" where
  "extract_spotify_id_from_href href =
     (if \<not> truthy href then Inr None
      else case href of
          JStr s \<Rightarrow>
            (let segment = (if py_in ''track/'' s then last (py_split1 ''track/'' s) else s);
                 segment' = hd (py_split1 ''?'' segment)
             in Inr (if segment' = [] then None else Some segment'))
        | JList _ \<Rightarrow> Inl AttributeError
        | JObj _ \<Rightarrow> Inl AttributeError
        | _ \<Rightarrow> Inl TypeError)"

section \<open>cache.py: the store\<close>

text \<open>
  A row of \<open>user_spotify_data\<close> or of \<open>artist_top_tracks\<close>, which is also the dict that the
  load functions build from it; the JSON text of the payload column is kept as the value
  it encodes. A row of \<open>track_features\<close>, and the dict that \<open>load_track_features\<close> builds
  from one.
\<close>

record cache_row =
  payload :: json
  row_count :: nat
  last_fetched :: string

record feature_row =
  row_tempo :: "pyfloat option"
  row_features_json :: "json option"
  row_last_fetched :: string
  row_fetch_status :: string

record feature_entry =
  tempo :: "pyfloat option"
  features :: "json option"
  entry_last_fetched :: string
  fetch_status :: string

text \<open>The three tables that the verified functions read and write, each keyed as in the schema.\<close>

record store =
  user_spotify_data :: "string \<times> string \<rightharpoonup> cache_row"
  artist_top_tracks :: "string \<rightharpoonup> cache_row"
  track_features :: "string \<rightharpoonup> feature_row"

definition load_user_spotify_data :: "store \<Rightarrow> string \<Rightarrow> string \<Rightarrow> cache_row option" where
  "load_user_spotify_data st spotify_user_id data_key =
     user_spotify_data st (spotify_user_id, data_key)"

text \<open>\<open>len(payload) if isinstance(payload, list) else 0\<close>.\<close>

definition payload_count :: "json \<Rightarrow> nat" where
  "payload_count p = (case p of JList xs \<Rightarrow> length xs | _ \<Rightarrow> 0)"

definition save_user_spotify_data ::
  "builtins \<Rightarrow> int \<Rightarrow> string \<Rightarrow> string \<Rightarrow> json \<Rightarrow> store \<Rightarrow> store" where
  "save_user_spotify_data b now spotify_user_id data_key p st =
     st\<lparr>user_spotify_data := (user_spotify_data st)
          ((spotify_user_id, data_key) \<mapsto>
             \<lparr>payload = p, row_count = payload_count p,
              last_fetched = current_timestamp b now\<rparr>)\<rparr>"

definition load_artist_top_tracks :: "store \<Rightarrow> string \<Rightarrow> cache_row option" where
  "load_artist_top_tracks st artist_id = artist_top_tracks st artist_id"

definition save_artist_top_tracks :: "builtins \<Rightarrow> int \<Rightarrow> string \<Rightarrow> json \<Rightarrow> store \<Rightarrow> store" where
  "save_artist_top_tracks b now artist_id p st =
     st\<lparr>artist_top_tracks := (artist_top_tracks st)
          (artist_id \<mapsto>
             \<lparr>payload = p, row_count = payload_count p,
              last_fetched = current_timestamp b now\<rparr>)\<rparr>"

definition entry_of_row :: "feature_row \<Rightarrow> feature_entry" where
  "entry_of_row r =
     \<lparr>tempo = row_tempo r, features = row_features_json r,
      entry_last_fetched = row_last_fetched r, fetch_status = row_fetch_status r\<rparr>"

text \<open>
  \<open>load_track_features(spotify_ids)\<close>: the rows whose key is among the requested ones
  (none for an empty request).
\<close>

definition load_track_features :: "store \<Rightarrow> string list \<Rightarrow> (string \<rightharpoonup> feature_entry)" where
  "load_track_features st spotify_ids =
     (\<lambda>k. if k \<in> set spotify_ids then map_option entry_of_row (track_features st k) else None)"

text \<open>
  The tempo that \<open>save_track_features\<close> binds: \<open>float(tempo)\<close> unless the field is
  \<open>None\<close>, and \<open>None\<close> when the coercion raises \<open>ValueError\<close> or \<open>TypeError\<close>; any
  other exception of the coercion propagates. SQLite stores a NaN as NULL.
\<close>

definition tempo_val :: "builtins \<Rightarrow> json \<Rightarrow> py_error + pyfloat option" where
  "tempo_val b t =
     (if t = JNull then Inr None
      else case py_float b t of
             Inr f \<Rightarrow> Inr (Some f)
           | Inl e \<Rightarrow> if e = ValueError \<or> e = TypeError then Inr None else Inl e)"

definition sql_real :: "pyfloat option \<Rightarrow> pyfloat option" where
  "sql_real v = (if v = Some NaN then None else v)"

text \<open>
  The identity of a feature object, \<open>extract_spotify_id_from_href(obj.get("href"))\<close>, as
  \<open>save_track_features\<close> and the reconciler both compute it.
\<close>

definition href_id :: "json \<Rightarrow> py_error + string option" where
  "href_id obj =
     (case py_get obj ''href'' of
        Inl e \<Rightarrow> Inl e
      | Inr href \<Rightarrow> extract_spotify_id_from_href href)"

text \<open>The row that \<open>save_track_features\<close> writes for an object whose tempo coerced to \<open>tv\<close>.\<close>

definition ok_row :: "builtins \<Rightarrow> int \<Rightarrow> json \<Rightarrow> pyfloat option \<Rightarrow> feature_row" where
  "ok_row b now obj tv =
     \<lparr>row_tempo = sql_real tv, row_features_json = Some obj,
      row_last_fetched = current_timestamp b now, row_fetch_status = ''ok''\<rparr>"

text \<open>
  The loop of \<open>save_track_features\<close> over the feature objects, on the table inside the
  transaction. An object without an identity is skipped.
\<close>

fun save_track_features_loop ::
  "builtins \<Rightarrow> int \<Rightarrow> json list \<Rightarrow> (string \<rightharpoonup> feature_row) \<Rightarrow> py_error + (string \<rightharpoonup> feature_row)" where
  "save_track_features_loop b now [] tbl = Inr tbl"
| "save_track_features_loop b now (obj # objs) tbl =
     (case href_id obj of
        Inl e \<Rightarrow> Inl e
      | Inr None \<Rightarrow> save_track_features_loop b now objs tbl
      | Inr (Some spotify_id) \<Rightarrow>
          (case py_get obj ''tempo'' of
             Inl e \<Rightarrow> Inl e
           | Inr t \<Rightarrow>
               (case tempo_val b t of
                  Inl e \<Rightarrow> Inl e
                | Inr tv \<Rightarrow>
                    save_track_features_loop b now objs
                      (tbl(spotify_id \<mapsto> ok_row b now obj tv)))))"

text \<open>
  \<open>save_track_features(feature_objs)\<close>. The loop runs inside \<open>with conn:\<close>, which commits
  when the block ends and rolls back when an exception leaves it: \<open>Inl\<close> is the exception,
  with the store as it was before the call.
\<close>

definition save_track_features :: "builtins \<Rightarrow> int \<Rightarrow> json list \<Rightarrow> store \<Rightarrow> py_error + store" where
  "save_track_features b now feature_objs st =
     (case save_track_features_loop b now feature_objs (track_features st) of
        Inl e \<Rightarrow> Inl e
      | Inr tbl \<Rightarrow> Inr (st\<lparr>track_features := tbl\<rparr>))"

text \<open>The row that \<open>mark_tracks_no_data\<close> writes.\<close>

definition no_data_row :: "builtins \<Rightarrow> int \<Rightarrow> feature_row" where
  "no_data_row b now =
     \<lparr>row_tempo = None, row_features_json = None,
      row_last_fetched = current_timestamp b now, row_fetch_status = ''no_data''\<rparr>"

fun mark_tracks_no_data_loop ::
  "builtins \<Rightarrow> int \<Rightarrow> string list \<Rightarrow> (string \<rightharpoonup> feature_row) \<Rightarrow> (string \<rightharpoonup> feature_row)" where
  "mark_tracks_no_data_loop b now [] tbl = tbl"
| "mark_tracks_no_data_loop b now (spotify_id # spotify_ids) tbl =
     mark_tracks_no_data_loop b now spotify_ids (tbl(spotify_id \<mapsto> no_data_row b now))"

definition mark_tracks_no_data :: "builtins \<Rightarrow> int \<Rightarrow> string list \<Rightarrow> store \<Rightarrow> store" where
  "mark_tracks_no_data b now spotify_ids st =
     st\<lparr>track_features := mark_tracks_no_data_loop b now spotify_ids (track_features st)\<rparr>"

section \<open>app.py: fetch or reuse\<close>

text \<open>
  The Spotify client is a parameter: each method gives the response or the exception it
  raises. The calls a function makes are returned with its result, in order.
\<close>

record spotify =
  current_user_top_tracks :: "nat \<Rightarrow> py_error + json"
  current_user_saved_tracks :: "nat \<Rightarrow> nat \<Rightarrow> py_error + json"
  current_user_top_artists :: "nat \<Rightarrow> py_error + json"
  artist_top_tracks_api :: "string \<Rightarrow> py_error + json"

datatype api_call =
    CurrentUserTopTracks nat
  | CurrentUserSavedTracks nat nat
  | CurrentUserTopArtists nat
  | ArtistTopTracks string

type_synonym fetch_result = "(py_error + json) \<times> store \<times> api_call list"

text \<open>
  The first lines of every fetch function:
  \<open>if cached and not cache.is_stale(cached["last_fetched"]): return cached["payload"]\<close>.
  \<open>Some p\<close> is the early return of \<open>p\<close>, \<open>None\<close> falls through to the upstream call.
\<close>

definition cached_payload :: "builtins \<Rightarrow> int \<Rightarrow> cache_row option \<Rightarrow> py_error + json option" where
  "cached_payload b now cached =
     (case cached of
        None \<Rightarrow> Inr None
      | Some c \<Rightarrow>
          (case is_stale b now (LfStr (last_fetched c)) CACHE_TTL_DAYS of
             Inl e \<Rightarrow> Inl e
           | Inr stale \<Rightarrow> Inr (if stale then None else Some (payload c))))"

definition fetch_user_top_tracks ::
  "builtins \<Rightarrow> int \<Rightarrow> spotify \<Rightarrow> string \<Rightarrow> nat \<Rightarrow> store \<Rightarrow> fetch_result" where
  "fetch_user_top_tracks b now sp user_id limit st =
     (case cached_payload b now (load_user_spotify_data st user_id ''top_tracks'') of
        Inl e \<Rightarrow> (Inl e, st, [])
      | Inr (Some p) \<Rightarrow> (Inr p, st, [])
      | Inr None \<Rightarrow>
          (case current_user_top_tracks sp limit of
             Inl e \<Rightarrow>
               (if e = SpotifyException then Inr (JList []) else Inl e, st,
                [CurrentUserTopTracks limit])
           | Inr response \<Rightarrow>
               (case py_get_default response ''items'' (JList []) of
                  Inl e \<Rightarrow> (Inl e, st, [CurrentUserTopTracks limit])
                | Inr items \<Rightarrow>
                    (Inr items, save_user_spotify_data b now user_id ''top_tracks'' items st,
                     [CurrentUserTopTracks limit]))))"

definition fetch_user_top_artists ::
  "builtins \<Rightarrow> int \<Rightarrow> spotify \<Rightarrow> string \<Rightarrow> nat \<Rightarrow> store \<Rightarrow> fetch_result" where
  "fetch_user_top_artists b now sp user_id limit st =
     (case cached_payload b now (load_user_spotify_data st user_id ''top_artists'') of
        Inl e \<Rightarrow> (Inl e, st, [])
      | Inr (Some p) \<Rightarrow> (Inr p, st, [])
      | Inr None \<Rightarrow>
          (case current_user_top_artists sp limit of
             Inl e \<Rightarrow>
               (if e = SpotifyException then Inr (JList []) else Inl e, st,
                [CurrentUserTopArtists limit])
           | Inr response \<Rightarrow>
               (case py_get_default response ''items'' (JList []) of
                  Inl e \<Rightarrow> (Inl e, st, [CurrentUserTopArtists limit])
                | Inr items \<Rightarrow>
                    (Inr items, save_user_spotify_data b now user_id ''top_artists'' items st,
                     [CurrentUserTopArtists limit]))))"

definition fetch_artist_top_tracks ::
  "builtins \<Rightarrow> int \<Rightarrow> spotify \<Rightarrow> string \<Rightarrow> store \<Rightarrow> fetch_result" where
  "fetch_artist_top_tracks b now sp artist_id st =
     (case cached_payload b now (load_artist_top_tracks st artist_id) of
        Inl e \<Rightarrow> (Inl e, st, [])
      | Inr (Some p) \<Rightarrow> (Inr p, st, [])
      | Inr None \<Rightarrow>
          (case artist_top_tracks_api sp artist_id of
             Inl e \<Rightarrow>
               (if e = SpotifyException then Inr (JList []) else Inl e, st,
                [ArtistTopTracks artist_id])
           | Inr response \<Rightarrow>
               (case py_get_default response ''tracks'' (JList []) of
                  Inl e \<Rightarrow> (Inl e, st, [ArtistTopTracks artist_id])
                | Inr tracks \<Rightarrow>
                    (Inr tracks, save_artist_top_tracks b now artist_id tracks st,
                     [ArtistTopTracks artist_id]))))"

text \<open>
  The inner loop of \<open>fetch_user_saved_tracks\<close>: an item contributes its \<open>track\<close> when that
  is truthy and has a truthy \<open>id\<close>.
\<close>

fun collect_tracks :: "json list \<Rightarrow> json list \<Rightarrow> py_error + json list" where
  "collect_tracks [] tracks = Inr tracks"
| "collect_tracks (item # items) tracks =
     (case py_get item ''track'' of
        Inl e \<Rightarrow> Inl e
      | Inr track \<Rightarrow>
          if \<not> truthy track then collect_tracks items tracks
          else (case py_get track ''id'' of
                  Inl e \<Rightarrow> Inl e
                | Inr track_id \<Rightarrow>
                    collect_tracks items (if truthy track_id then tracks @ [track] else tracks)))"

text \<open>
  How the \<open>while True\<close> loop of \<open>fetch_user_saved_tracks\<close> is left: by a \<open>break\<close>, by a
  \<open>SpotifyException\<close> (which the function catches), or by any other exception.
\<close>

datatype loop_exit = Finished | Caught | Raised py_error

text \<open>
  The loop itself, with the tracks collected so far. Nothing bounds the number of full
  pages that the client may return, so the loop takes fuel: \<open>None\<close> is a loop that has
  not ended when the fuel is used up.
\<close>

fun saved_tracks_loop ::
  "nat \<Rightarrow> spotify \<Rightarrow> nat \<Rightarrow> nat \<Rightarrow> json list \<Rightarrow> (loop_exit \<times> json list \<times> api_call list) option" where
  "saved_tracks_loop 0 sp limit offset tracks = None"
| "saved_tracks_loop (Suc fuel) sp limit offset tracks =
     (case current_user_saved_tracks sp limit offset of
        Inl e \<Rightarrow>
          Some (if e = SpotifyException then Caught else Raised e, tracks,
                [CurrentUserSavedTracks limit offset])
      | Inr response \<Rightarrow>
          (case py_get_default response ''items'' (JList []) of
             Inl e \<Rightarrow> Some (Raised e, tracks, [CurrentUserSavedTracks limit offset])
           | Inr items \<Rightarrow>
               if \<not> truthy items
               then Some (Finished, tracks, [CurrentUserSavedTracks limit offset])
               else (case items of
                       JList its \<Rightarrow>
                         (case collect_tracks its tracks of
                            Inl e \<Rightarrow>
                              Some (Raised e, tracks, [CurrentUserSavedTracks limit offset])
                          | Inr tracks' \<Rightarrow>
                              if length its < limit
                              then Some (Finished, tracks',
                                         [CurrentUserSavedTracks limit offset])
                              else (case saved_tracks_loop fuel sp limit
                                           (offset + length its) tracks' of
                                      None \<Rightarrow> None
                                    | Some (ex, tracks'', calls) \<Rightarrow>
                                        Some (ex, tracks'',
                                              CurrentUserSavedTracks limit offset # calls)))
                     | JStr _ \<Rightarrow>
                         Some (Raised AttributeError, tracks,
                               [CurrentUserSavedTracks limit offset])
                     | JObj _ \<Rightarrow>
                         Some (Raised AttributeError, tracks,
                               [CurrentUserSavedTracks limit offset])
                     | _ \<Rightarrow>
                         Some (Raised TypeError, tracks,
                               [CurrentUserSavedTracks limit offset]))))"

text \<open>
  \<open>fetch_user_saved_tracks\<close>: the save is the last statement inside the \<open>try\<close>, and
  \<open>return tracks\<close> follows the \<open>try\<close> statement, so it is reached after the save and
  after a caught \<open>SpotifyException\<close> alike.
\<close>

definition fetch_user_saved_tracks ::
  "nat \<Rightarrow> builtins \<Rightarrow> int \<Rightarrow> spotify \<Rightarrow> string \<Rightarrow> nat \<Rightarrow> store \<Rightarrow> fetch_result option" where
  "fetch_user_saved_tracks fuel b now sp user_id limit st =
     (case cached_payload b now (load_user_spotify_data st user_id ''saved_tracks'') of
        Inl e \<Rightarrow> Some (Inl e, st, [])
      | Inr (Some p) \<Rightarrow> Some (Inr p, st, [])
      | Inr None \<Rightarrow>
          (case saved_tracks_loop fuel sp limit 0 [] of
             None \<Rightarrow> None
           | Some (Finished, tracks, calls) \<Rightarrow>
               Some (Inr (JList tracks),
                     save_user_spotify_data b now user_id ''saved_tracks'' (JList tracks) st,
                     calls)
           | Some (Caught, tracks, calls) \<Rightarrow> Some (Inr (JList tracks), st, calls)
           | Some (Raised e, tracks, calls) \<Rightarrow> Some (Inl e, st, calls)))"

section \<open>app.py: the batch reconciler\<close>

text \<open>\<open>entry["fetch_status"] == status and cache.is_stale(entry["last_fetched"])\<close>.\<close>

definition status_and_stale ::
  "builtins \<Rightarrow> int \<Rightarrow> feature_entry \<Rightarrow> string \<Rightarrow> py_error + bool" where
  "status_and_stale b now entry status =
     (if fetch_status entry = status
      then is_stale b now (LfStr (entry_last_fetched entry)) CACHE_TTL_DAYS
      else Inr False)"

text \<open>The loop that collects \<open>missing_ids\<close>.\<close>

fun missing_ids_loop ::
  "builtins \<Rightarrow> int \<Rightarrow> (string \<rightharpoonup> feature_entry) \<Rightarrow> string list \<Rightarrow> string list
     \<Rightarrow> py_error + string list" where
  "missing_ids_loop b now cached_data [] missing_ids = Inr missing_ids"
| "missing_ids_loop b now cached_data (tid # tids) missing_ids =
     (case cached_data tid of
        None \<Rightarrow> missing_ids_loop b now cached_data tids (missing_ids @ [tid])
      | Some entry \<Rightarrow>
          (case status_and_stale b now entry ''ok'' of
             Inl e \<Rightarrow> Inl e
           | Inr c1 \<Rightarrow>
               if c1 then missing_ids_loop b now cached_data tids (missing_ids @ [tid])
               else (case status_and_stale b now entry ''no_data'' of
                       Inl e \<Rightarrow> Inl e
                     | Inr c2 \<Rightarrow>
                         if c2
                         then missing_ids_loop b now cached_data tids (missing_ids @ [tid])
                         else missing_ids_loop b now cached_data tids missing_ids)))"

text \<open>The loop that collects \<open>returned_ids\<close> from the content of a response.\<close>

fun returned_ids_loop :: "json list \<Rightarrow> string set \<Rightarrow> py_error + string set" where
  "returned_ids_loop [] returned_ids = Inr returned_ids"
| "returned_ids_loop (obj # objs) returned_ids =
     (case href_id obj of
        Inl e \<Rightarrow> Inl e
      | Inr None \<Rightarrow> returned_ids_loop objs returned_ids
      | Inr (Some sid) \<Rightarrow> returned_ids_loop objs (insert sid returned_ids))"

text \<open>\<open>payload.get("content") if isinstance(payload, dict) else None\<close>.\<close>

definition payload_content :: "json \<Rightarrow> json" where
  "payload_content p =
     (case p of
        JObj kvs \<Rightarrow> (case map_of kvs ''content'' of None \<Rightarrow> JNull | Some v \<Rightarrow> v)
      | _ \<Rightarrow> JNull)"

text \<open>
  What the body of the \<open>try\<close> does with the payload of a response: the exception that
  leaves it, if any, and the store at that point.
\<close>

definition reconcile_payload ::
  "builtins \<Rightarrow> int \<Rightarrow> string list \<Rightarrow> json \<Rightarrow> store \<Rightarrow> py_error option \<times> store" where
  "reconcile_payload b now chunk p st =
     (case payload_content p of
        JList content \<Rightarrow>
          (case save_track_features b now content st of
             Inl e \<Rightarrow> (Some e, st)
           | Inr st1 \<Rightarrow>
               (case returned_ids_loop content {} of
                  Inl e \<Rightarrow> (Some e, st1)
                | Inr returned_ids \<Rightarrow>
                    (let no_data_ids = filter (\<lambda>cid. cid \<notin> returned_ids) chunk
                     in (None, if no_data_ids \<noteq> [] then mark_tracks_no_data b now no_data_ids st1
                               else st1))))
      | _ \<Rightarrow> (None, st))"

text \<open>
  The ReccoBeats request is a parameter: \<open>api i chunk\<close> is the decoded payload of the
  request that the loop sends at index \<open>i\<close> for \<open>chunk\<close>, or the exception of
  \<open>requests.get\<close>, \<open>raise_for_status\<close> or \<open>response.json\<close>. The body of the \<open>try\<close>:
\<close>

definition try_chunk ::
  "builtins \<Rightarrow> int \<Rightarrow> (nat \<Rightarrow> string list \<Rightarrow> py_error + json) \<Rightarrow> nat \<Rightarrow> string list \<Rightarrow> store
     \<Rightarrow> py_error option \<times> store" where
  "try_chunk b now api i chunk st =
     (case api i chunk of
        Inl e \<Rightarrow> (Some e, st)
      | Inr p \<Rightarrow> reconcile_payload b now chunk p st)"

text \<open>
  \<open>for i in range(0, len(missing_ids), 40)\<close>, from index \<open>i\<close> on: a
  \<open>RequestException\<close> is caught and the loop continues, any other exception ends it. The
  result carries the chunks that were requested.
\<close>

function chunk_loop ::
  "builtins \<Rightarrow> int \<Rightarrow> (nat \<Rightarrow> string list \<Rightarrow> py_error + json) \<Rightarrow> string list \<Rightarrow> nat \<Rightarrow> store
     \<Rightarrow> py_error option \<times> store \<times> string list list" where
  "chunk_loop b now api missing_ids i st =
     (if i < length missing_ids then
        (let chunk = take 40 (drop i missing_ids);
             (exc, st') = try_chunk b now api i chunk st
         in if exc = None \<or> exc = Some RequestException
            then (let (r, st'', requests) = chunk_loop b now api missing_ids (i + 40) st'
                  in (r, st'', chunk # requests))
            else (exc, st', [chunk]))
      else (None, st, []))"
  by pat_completeness auto
termination
  by (relation "measure (\<lambda>(b, now, api, missing_ids, i, st). length missing_ids - i)") auto

definition fetch_missing_tempos_with_reccobeats ::
  "builtins \<Rightarrow> int \<Rightarrow> (nat \<Rightarrow> string list \<Rightarrow> py_error + json) \<Rightarrow> string list \<Rightarrow> store
     \<Rightarrow> (py_error + (string \<rightharpoonup> feature_entry)) \<times> store \<times> string list list" where
  "fetch_missing_tempos_with_reccobeats b now api track_ids st =
     (if track_ids = [] then (Inr Map.empty, st, [])
      else
        (let cached_data = load_track_features st track_ids
         in case missing_ids_loop b now cached_data track_ids [] of
              Inl e \<Rightarrow> (Inl e, st, [])
            | Inr missing_ids \<Rightarrow>
                if missing_ids = [] then (Inr cached_data, st, [])
                else (case chunk_loop b now api missing_ids 0 st of
                        (Some e, st', requests) \<Rightarrow> (Inl e, st', requests)
                      | (None, st', requests) \<Rightarrow>
                          (Inr (load_track_features st' track_ids), st', requests))))"

section \<open>app.py: the tempo filter\<close>

text \<open>Comparison of an \<open>int\<close> with a \<open>float\<close>, which Python decides on the exact values.\<close>

fun int_le_float :: "int \<Rightarrow> pyfloat \<Rightarrow> bool" where
  "int_le_float n (Fin r) = (real_of_int n \<le> r)"
| "int_le_float n PInf = True"
| "int_le_float n NInf = False"
| "int_le_float n NaN = False"

fun float_le_int :: "pyfloat \<Rightarrow> int \<Rightarrow> bool" where
  "float_le_int (Fin r) n = (r \<le> real_of_int n)"
| "float_le_int PInf n = False"
| "float_le_int NInf n = True"
| "float_le_int NaN n = False"

fun filter_tracks_by_tempo_loop ::
  "(string \<rightharpoonup> feature_entry) \<Rightarrow> int \<Rightarrow> int \<Rightarrow> string list \<Rightarrow> string list \<Rightarrow> string list" where
  "filter_tracks_by_tempo_loop tempo_data min_bpm max_bpm [] filtered_ids = filtered_ids"
| "filter_tracks_by_tempo_loop tempo_data min_bpm max_bpm (track_id # track_ids) filtered_ids =
     (case tempo_data track_id of
        None \<Rightarrow> filter_tracks_by_tempo_loop tempo_data min_bpm max_bpm track_ids filtered_ids
      | Some metrics \<Rightarrow>
          if fetch_status metrics \<noteq> ''ok''
          then filter_tracks_by_tempo_loop tempo_data min_bpm max_bpm track_ids filtered_ids
          else (case tempo metrics of
                  None \<Rightarrow>
                    filter_tracks_by_tempo_loop tempo_data min_bpm max_bpm track_ids filtered_ids
                | Some t \<Rightarrow>
                    if int_le_float min_bpm t \<and> float_le_int t max_bpm
                    then filter_tracks_by_tempo_loop tempo_data min_bpm max_bpm track_ids
                           (filtered_ids @ [track_id])
                    else filter_tracks_by_tempo_loop tempo_data min_bpm max_bpm track_ids
                           filtered_ids))"

definition filter_tracks_by_tempo ::
  "string list \<Rightarrow> (string \<rightharpoonup> feature_entry) \<Rightarrow> int \<Rightarrow> string list" where
  "filter_tracks_by_tempo track_ids tempo_data cadence_bpm =
     (let min_bpm = cadence_bpm; max_bpm = cadence_bpm + 9
      in filter_tracks_by_tempo_loop tempo_data min_bpm max_bpm track_ids [])"

section \<open>The invariant of a track feature row\<close>

text \<open>
  A tempo is present only with status \<open>ok\<close>, and a row with status \<open>no_data\<close> has neither
  tempo nor raw features.
\<close>

abbreviation row_invariant :: "feature_row \<Rightarrow> bool" where
  "row_invariant r \<equiv>
     (row_tempo r \<noteq> None \<longrightarrow> row_fetch_status r = ''ok'')
     \<and> (row_fetch_status r = ''no_data'' \<longrightarrow> row_tempo r = None \<and> row_features_json r = None)"

section \<open>The identities that the reconciler requests\<close>

text \<open>
  An identity is missing or retryable in a store at a time when it has no row, or a row
  with status \<open>ok\<close> or \<open>no_data\<close> that is stale.
\<close>

abbreviation missing_or_retryable :: "builtins \<Rightarrow> int \<Rightarrow> store \<Rightarrow> string \<Rightarrow> bool" where
  "missing_or_retryable b now st t \<equiv>
     track_features st t = None
     \<or> (\<exists>r. track_features st t = Some r
           \<and> (row_fetch_status r = ''ok'' \<or> row_fetch_status r = ''no_data'')
           \<and> is_stale b now (LfStr (row_last_fetched r)) CACHE_TTL_DAYS = Inr True)"

section \<open>An environment for the examples\<close>

text \<open>
  The examples below run the functions on this instance of the library functions: the two
  timestamps 2024-01-01 and 2024-03-01 (60 days apart) at midnight, one numeric string,
  and the integers that fit a double (their rounding is not needed by any example).
\<close>

definition example_builtins :: builtins where
  "example_builtins =
     \<lparr>fromisoformat = (\<lambda>s.
        if s = ''2024-01-01 00:00:00'' then Some (Datetime 63839664000000000 None)
        else if s = ''2024-03-01 00:00:00'' then Some (Datetime 63844848000000000 None)
        else None),
      float_of_str = (\<lambda>s. if s = ''120.5'' then Some (Fin 120.5) else None),
      float_of_int = (\<lambda>n.
        if \<bar>n\<bar> < 2 ^ 1024 - 2 ^ 970 then Some (Fin (real_of_int n)) else None),
      current_timestamp = (\<lambda>t.
        if t = 63839664000000000 then ''2024-01-01 00:00:00''
        else if t = 63844848000000000 then ''2024-03-01 00:00:00''
        else ''unknown'')\<rparr>"

text \<open>The store after \<open>init_db\<close> on a new file: every table is empty.\<close>

definition init_db :: store where
  "init_db =
     \<lparr>user_spotify_data = Map.empty, artist_top_tracks = Map.empty,
      track_features = Map.empty\<rparr>"

text \<open>
  A Spotify client whose saved tracks have a first page of one track and whose second
  page fails; its other methods fail at once.
\<close>

definition failing_spotify :: spotify where
  "failing_spotify =
     \<lparr>current_user_top_tracks = (\<lambda>limit. Inl SpotifyException),
      current_user_saved_tracks = (\<lambda>limit offset.
        if offset = 0
        then Inr (JObj [(''items'', JList [JObj [(''track'', JObj [(''id'', JStr ''t1'')])]])])
        else Inl SpotifyException),
      current_user_top_artists = (\<lambda>limit. Inl SpotifyException),
      artist_top_tracks_api = (\<lambda>artist_id. Inl SpotifyException)\<rparr>"

text \<open>
  A track feature table on 2024-03-01: \<open>t1\<close> has a fresh tempo, \<open>t2\<close> is \<open>no_data\<close> and
  fresh, \<open>t4\<close> is \<open>no_data\<close> and stale, \<open>t5\<close> has a stale tempo, and \<open>t3\<close> has no row.
\<close>

definition example_store :: store where
  "example_store =
     init_db\<lparr>track_features :=
       [''t1'' \<mapsto> \<lparr>row_tempo = Some (Fin 165), row_features_json = Some (JObj []),
                   row_last_fetched = ''2024-03-01 00:00:00'', row_fetch_status = ''ok''\<rparr>,
        ''t2'' \<mapsto> \<lparr>row_tempo = None, row_features_json = None,
                   row_last_fetched = ''2024-03-01 00:00:00'', row_fetch_status = ''no_data''\<rparr>,
        ''t4'' \<mapsto> \<lparr>row_tempo = None, row_features_json = None,
                   row_last_fetched = ''2024-01-01 00:00:00'', row_fetch_status = ''no_data''\<rparr>,
        ''t5'' \<mapsto> \<lparr>row_tempo = Some (Fin 158), row_features_json = Some (JObj []),
                   row_last_fetched = ''2024-01-01 00:00:00'', row_fetch_status = ''ok''\<rparr>]\<rparr>"

text \<open>The feature objects of a response that knows \<open>t3\<close> and \<open>t5\<close>, the latter without tempo.\<close>

definition example_content :: "json list" where
  "example_content =
     [JObj [(''href'', JStr ''https://api.reccobeats.com/v1/track/t3''),
            (''tempo'', JFloat (Fin 160))],
      JObj [(''href'', JStr ''https://api.reccobeats.com/v1/track/t5''), (''tempo'', JNull)]]"

definition example_api :: "nat \<Rightarrow> string list \<Rightarrow> py_error + json" where
  "example_api i chunk = Inr (JObj [(''content'', JList example_content)])"

text \<open>
  Forty-one identities, which make two chunks, and a ReccoBeats endpoint whose first
  request fails and whose later requests return no feature object.
\<close>

definition ids41 :: "string list" where
  "ids41 =
     [''a01'', ''a02'', ''a03'', ''a04'', ''a05'', ''a06'', ''a07'', ''a08'', ''a09'',
      ''a10'', ''a11'', ''a12'', ''a13'', ''a14'', ''a15'', ''a16'', ''a17'', ''a18'',
      ''a19'', ''a20'', ''a21'', ''a22'', ''a23'', ''a24'', ''a25'', ''a26'', ''a27'',
      ''a28'', ''a29'', ''a30'', ''a31'', ''a32'', ''a33'', ''a34'', ''a35'', ''a36'',
      ''a37'', ''a38'', ''a39'', ''a40'', ''a41'']"

definition flaky_api :: "nat \<Rightarrow> string list \<Rightarrow> py_error + json" where
  "flaky_api i chunk =
     (if i = 0 then Inl RequestException else Inr (JObj [(''content'', JList [])]))"

section \<open>Staleness\<close>

lemma is_stale_default [simp]:
  "is_stale b now lf CACHE_TTL_DAYS =
     Inr (case (case lf of LfStr s \<Rightarrow> fromisoformat b s | LfDatetime d \<Rightarrow> Some d) of
            None \<Rightarrow> True
          | Some d \<Rightarrow> now - naive d > 2592000000000)"
  by (auto simp: is_stale_def CACHE_TTL_DAYS_def timedelta_days_def Let_def
      split: option.splits last_fetched.splits)

text \<open>
  Claim C6. For a time-to-live that \<open>timedelta\<close> represents (at most 999999999 days in
  magnitude; the default is 30), \<open>is_stale\<close> returns true exactly when the time elapsed
  since \<open>last_fetched\<close> exceeds the time-to-live, for a \<open>datetime\<close> and for a string that
  parses to one. A string that does not parse is stale, whatever the time-to-live, and
  nothing is raised. With the default of 30 days, a record fetched at \<open>T\<close> is not stale
  at any time in \<open>[T, T + 30d)\<close> and stale at any time after \<open>T + 30d\<close>.
\<close>

theorem is_stale_policy:
  "(\<bar>days\<bar> \<le> 999999999 \<longrightarrow>
      is_stale b now (LfDatetime d) days = Inr (now - naive d > days * 86400000000))
   \<and> (\<bar>days\<bar> \<le> 999999999 \<and> fromisoformat b s = Some d \<longrightarrow>
      is_stale b now (LfStr s) days = Inr (now - naive d > days * 86400000000))
   \<and> (fromisoformat b s = None \<longrightarrow> is_stale b now (LfStr s) days = Inr True)
   \<and> (naive d \<le> now \<and> now < naive d + 30 * 86400000000 \<longrightarrow>
      is_stale b now (LfDatetime d) CACHE_TTL_DAYS = Inr False)
   \<and> (naive d + 30 * 86400000000 < now \<longrightarrow>
      is_stale b now (LfDatetime d) CACHE_TTL_DAYS = Inr True)"
  by (auto simp: is_stale_def CACHE_TTL_DAYS_def timedelta_days_def Let_def)

text \<open>
  The policy on the example environment, 60 days after 2024-01-01: the record of that day
  is stale, the record of the same day is not, a string that is no timestamp is stale;
  and exactly 30 days after the fetch a record is not yet stale, a microsecond later it is.
\<close>

theorem is_stale_policy_witness:
  "is_stale example_builtins 63844848000000000 (LfStr ''2024-01-01 00:00:00'') 30 = Inr True
   \<and> is_stale example_builtins 63844848000000000 (LfStr ''2024-03-01 00:00:00'') 30 = Inr False
   \<and> is_stale example_builtins 63844848000000000 (LfStr ''yesterday'') 30 = Inr True
   \<and> is_stale example_builtins 63842255999999999
        (LfDatetime (Datetime 63839664000000000 None)) CACHE_TTL_DAYS = Inr False
   \<and> is_stale example_builtins 63842256000000001
        (LfDatetime (Datetime 63839664000000000 None)) CACHE_TTL_DAYS = Inr True"
  using
    is_stale_policy [of 30 example_builtins 63844848000000000
      "Datetime 63839664000000000 None" "''2024-01-01 00:00:00''"]
    is_stale_policy [of 30 example_builtins 63844848000000000
      "Datetime 63844848000000000 None" "''2024-03-01 00:00:00''"]
    is_stale_policy [of 30 example_builtins 63844848000000000
      "Datetime 0 None" "''yesterday''"]
    is_stale_policy [of 30 example_builtins 63842255999999999
      "Datetime 63839664000000000 None" "''''"]
    is_stale_policy [of 30 example_builtins 63842256000000001
      "Datetime 63839664000000000 None" "''''"]
  by (simp add: example_builtins_def)

section \<open>The identity in an href\<close>

lemma startswith_append: "startswith sep (sep @ r)"
  by (simp add: startswith_def)

lemma partition_at_Some:
  "partition_at sep s = Some (a, r) \<Longrightarrow> s = a @ sep @ r"
proof (induction s arbitrary: a)
  case Nil
  then show ?case by simp
next
  case (Cons c cs)
  show ?case
  proof (cases "startswith sep (c # cs)")
    case True
    with Cons.prems have "a = []" "r = drop (length sep) (c # cs)" by auto
    moreover from True have "take (length sep) (c # cs) = sep" by (simp add: startswith_def)
    ultimately show ?thesis by (metis append_Nil append_take_drop_id)
  next
    case False
    with Cons.prems obtain a' where "partition_at sep cs = Some (a', r)" "a = c # a'"
      by (auto split: option.splits)
    with Cons.IH show ?thesis by simp
  qed
qed

lemma partition_at_first:
  "partition_at sep s = Some (a, r) \<Longrightarrow> s = p @ sep @ q \<Longrightarrow> length a \<le> length p"
proof (induction s arbitrary: a p)
  case Nil
  then show ?case by simp
next
  case (Cons c cs)
  show ?case
  proof (cases "startswith sep (c # cs)")
    case True
    with Cons.prems(1) have "a = []" by simp
    then show ?thesis by simp
  next
    case False
    with Cons.prems(1) obtain a' where a': "partition_at sep cs = Some (a', r)" "a = c # a'"
      by (auto split: option.splits)
    from False Cons.prems(2) have "p \<noteq> []" using startswith_append by fastforce
    then obtain p' where "p = c # p'" "cs = p' @ sep @ q" using Cons.prems(2)
      by (cases p) auto
    with Cons.IH a' show ?thesis by auto
  qed
qed

lemma partition_at_None:
  "partition_at sep s = None \<Longrightarrow> sep \<noteq> [] \<Longrightarrow> s \<noteq> p @ sep @ q"
proof (induction s arbitrary: p)
  case Nil
  then show ?case by simp
next
  case (Cons c cs)
  then have ns: "\<not> startswith sep (c # cs)" and n: "partition_at sep cs = None"
    by (auto split: if_splits option.splits)
  show ?case
  proof (cases p)
    case Nil
    with ns show ?thesis using startswith_append by fastforce
  next
    case (Cons x p')
    from Cons.IH[OF n \<open>sep \<noteq> []\<close>, of p'] Cons
    show ?thesis by auto
  qed
qed

lemma hd_py_split1_question:
  "hd (py_split1 ''?'' s) = takeWhile (\<lambda>c. c \<noteq> CHR ''?'') s"
proof -
  have "(case partition_at ''?'' s of None \<Rightarrow> s | Some (a, r) \<Rightarrow> a) =
          takeWhile (\<lambda>c. c \<noteq> CHR ''?'') s"
    by (induction s) (auto simp: startswith_def split: option.splits)
  then show ?thesis by (auto simp: py_split1_def split: option.splits)
qed

lemma extract_marker:
  assumes "href = pre @ ''track/'' @ rest"
    and "\<And>p r. href = p @ ''track/'' @ r \<Longrightarrow> length pre \<le> length p"
  shows "extract_spotify_id_from_href (JStr href) =
     Inr (if takeWhile (\<lambda>c. c \<noteq> CHR ''?'') rest = [] then None
          else Some (takeWhile (\<lambda>c. c \<noteq> CHR ''?'') rest))"
proof -
  have "partition_at ''track/'' href \<noteq> None"
  proof
    assume "partition_at ''track/'' href = None"
    from partition_at_None[OF this, of pre rest] have "href \<noteq> pre @ ''track/'' @ rest"
      by simp
    with assms(1) show False by simp
  qed
  then obtain a r where ar: "partition_at ''track/'' href = Some (a, r)" by auto
  then have eq: "href = a @ ''track/'' @ r" by (rule partition_at_Some)
  have "length a \<le> length pre" using partition_at_first[OF ar assms(1)] .
  moreover have "length pre \<le> length a" using assms(2)[OF eq] .
  ultimately have "length a = length pre" by simp
  with eq assms(1) have "a = pre" "r = rest" by auto
  with ar have "py_in ''track/'' href" "last (py_split1 ''track/'' href) = rest"
    by (auto simp: py_in_def py_split1_def)
  moreover have "href \<noteq> []" using assms(1) by auto
  ultimately show ?thesis
    by (simp add: extract_spotify_id_from_href_def hd_py_split1_question Let_def)
qed

lemma extract_no_marker:
  assumes "\<And>p r. href \<noteq> p @ ''track/'' @ r"
  shows "extract_spotify_id_from_href (JStr href) =
     Inr (if takeWhile (\<lambda>c. c \<noteq> CHR ''?'') href = [] then None
          else Some (takeWhile (\<lambda>c. c \<noteq> CHR ''?'') href))"
proof -
  have "partition_at ''track/'' href = None"
  proof (cases "partition_at ''track/'' href")
    case None
    then show ?thesis .
  next
    case (Some x)
    then obtain a r where "partition_at ''track/'' href = Some (a, r)" by (cases x) auto
    then have "href = a @ ''track/'' @ r" by (rule partition_at_Some)
    with assms show ?thesis by blast
  qed
  then have "\<not> py_in ''track/'' href" by (simp add: py_in_def)
  then show ?thesis
    by (simp add: extract_spotify_id_from_href_def hd_py_split1_question Let_def)
qed

lemma extract_nonempty: "extract_spotify_id_from_href h \<noteq> Inr (Some [])"
  by (cases h) (auto simp: extract_spotify_id_from_href_def Let_def)

lemma href_id_nonempty: "href_id obj \<noteq> Inr (Some [])"
  by (auto simp: href_id_def extract_nonempty split: sum.splits)

lemma save_loop_no_empty_key:
  "[] \<notin> dom tbl \<Longrightarrow> save_track_features_loop b now objs tbl = Inr tbl' \<Longrightarrow> [] \<notin> dom tbl'"
proof (induction objs arbitrary: tbl)
  case Nil
  then show ?case by simp
next
  case (Cons obj objs)
  show ?case
  proof (cases "href_id obj")
    case (Inl e)
    with Cons.prems show ?thesis by simp
  next
    case (Inr v)
    show ?thesis
    proof (cases v)
      case None
      with Inr Cons show ?thesis by simp
    next
      case (Some sid)
      with Inr have "sid \<noteq> []" using href_id_nonempty[of obj] by auto
      with Inr Some Cons.prems obtain tv where
        "save_track_features_loop b now objs (tbl(sid \<mapsto> ok_row b now obj tv)) = Inr tbl'"
        by (auto split: sum.splits)
      moreover have "[] \<notin> dom (tbl(sid \<mapsto> ok_row b now obj tv))"
        using Cons.prems(1) \<open>sid \<noteq> []\<close> by auto
      ultimately show ?thesis using Cons.IH by blast
    qed
  qed
qed

text \<open>
  Claim C9, as the code has it. When the href contains \<open>track/\<close>, the identity is the text
  after the first occurrence of that marker, up to the first \<open>?\<close>; when the href does not
  contain the marker, the identity is the whole href up to the first \<open>?\<close>. Either way an
  empty text gives no identity, as a missing (\<open>None\<close>) or empty href does, so no identity
  is ever the empty string; \<open>save_track_features\<close> skips an object without identity, and
  no row is stored under the empty key.
\<close>

theorem extract_spotify_id_from_href_segment:
  "(href = pre @ ''track/'' @ rest
      \<and> (\<forall>p r. href = p @ ''track/'' @ r \<longrightarrow> length pre \<le> length p) \<longrightarrow>
      extract_spotify_id_from_href (JStr href) =
        Inr (if takeWhile (\<lambda>c. c \<noteq> CHR ''?'') rest = [] then None
             else Some (takeWhile (\<lambda>c. c \<noteq> CHR ''?'') rest)))
   \<and> ((\<forall>p r. href \<noteq> p @ ''track/'' @ r) \<longrightarrow>
      extract_spotify_id_from_href (JStr href) =
        Inr (if takeWhile (\<lambda>c. c \<noteq> CHR ''?'') href = [] then None
             else Some (takeWhile (\<lambda>c. c \<noteq> CHR ''?'') href)))
   \<and> extract_spotify_id_from_href JNull = Inr None
   \<and> extract_spotify_id_from_href (JStr []) = Inr None
   \<and> extract_spotify_id_from_href h \<noteq> Inr (Some [])
   \<and> (map_of kvs ''href'' = None \<longrightarrow> href_id (JObj kvs) = Inr None)
   \<and> (href_id obj = Inr None \<longrightarrow>
      save_track_features_loop b now (obj # objs) tbl = save_track_features_loop b now objs tbl)
   \<and> ([] \<notin> dom tbl \<and> save_track_features_loop b now objs tbl = Inr tbl' \<longrightarrow> [] \<notin> dom tbl')"
proof -
  have "href = pre @ ''track/'' @ rest
      \<and> (\<forall>p r. href = p @ ''track/'' @ r \<longrightarrow> length pre \<le> length p) \<longrightarrow>
      extract_spotify_id_from_href (JStr href) =
        Inr (if takeWhile (\<lambda>c. c \<noteq> CHR ''?'') rest = [] then None
             else Some (takeWhile (\<lambda>c. c \<noteq> CHR ''?'') rest))"
    using extract_marker[of href pre rest] by blast
  moreover have "(\<forall>p r. href \<noteq> p @ ''track/'' @ r) \<longrightarrow>
      extract_spotify_id_from_href (JStr href) =
        Inr (if takeWhile (\<lambda>c. c \<noteq> CHR ''?'') href = [] then None
             else Some (takeWhile (\<lambda>c. c \<noteq> CHR ''?'') href))"
    using extract_no_marker[of href] by blast
  moreover have "extract_spotify_id_from_href JNull = Inr None"
    "extract_spotify_id_from_href (JStr []) = Inr None"
    by (simp_all add: extract_spotify_id_from_href_def)
  moreover have "map_of kvs ''href'' = None \<longrightarrow> href_id (JObj kvs) = Inr None"
    by (simp add: href_id_def py_get_def extract_spotify_id_from_href_def)
  moreover have "href_id obj = Inr None \<longrightarrow>
      save_track_features_loop b now (obj # objs) tbl = save_track_features_loop b now objs tbl"
    by simp
  moreover have "[] \<notin> dom tbl \<and> save_track_features_loop b now objs tbl = Inr tbl'
      \<longrightarrow> [] \<notin> dom tbl'"
    using save_loop_no_empty_key by blast
  ultimately show ?thesis using extract_nonempty by blast
qed

text \<open>
  On a ReccoBeats href with a query string the identity is \<open>t1\<close>; an object without href
  is skipped by the save.
\<close>

theorem extract_spotify_id_from_href_segment_witness:
  "extract_spotify_id_from_href (JStr ''https://api.reccobeats.com/v1/track/t1?market=US'') =
     Inr (Some ''t1'')
   \<and> extract_spotify_id_from_href (JStr ''t1?market=US'') = Inr (Some ''t1'')
   \<and> href_id (JObj [(''tempo'', JInt 120)]) = Inr None
   \<and> save_track_features_loop example_builtins 63839664000000000
        [JObj [(''tempo'', JInt 120)]] Map.empty = Inr Map.empty
   \<and> [] \<notin> dom (Map.empty :: string \<rightharpoonup> feature_row)"
proof -
  have "partition_at ''track/'' ''https://api.reccobeats.com/v1/track/t1?market=US'' =
      Some (''https://api.reccobeats.com/v1/'', ''t1?market=US'')"
    by (simp add: startswith_def)
  then have first: "\<forall>p r. ''https://api.reccobeats.com/v1/track/t1?market=US'' = p @ ''track/'' @ r
      \<longrightarrow> length ''https://api.reccobeats.com/v1/'' \<le> length p"
    using partition_at_first by blast
  have "partition_at ''track/'' ''t1?market=US'' = None"
    by (simp add: startswith_def)
  then have none: "\<forall>p r. ''t1?market=US'' \<noteq> p @ ''track/'' @ r"
    using partition_at_None[of "''track/''" "''t1?market=US''"] by blast
  have skip: "href_id (JObj [(''tempo'', JInt 120)]) = Inr None"
    using extract_spotify_id_from_href_segment
      [of "''''" "''''" "''''" JNull "[(''tempo'', JInt 120)]"]
    by simp
  show ?thesis
    using first none skip
      extract_spotify_id_from_href_segment
        [of "''https://api.reccobeats.com/v1/track/t1?market=US''"
            "''https://api.reccobeats.com/v1/''" "''t1?market=US''"]
      extract_spotify_id_from_href_segment [of "''t1?market=US''"]
      extract_spotify_id_from_href_segment
        [of "''''" "''''" "''''" JNull "[]" "JObj [(''tempo'', JInt 120)]"
            example_builtins 63839664000000000 "[]" Map.empty Map.empty]
    by simp
qed

text \<open>
  The claim as the specification words it fails on an href without the marker: a bare
  identity is returned as it is, although no \<open>track/\<close> precedes it.
\<close>

theorem extract_spotify_id_from_href_counterexample:
  "extract_spotify_id_from_href (JStr ''6rqhFgbbKwnb9MLmUQDhG6'') =
     Inr (Some ''6rqhFgbbKwnb9MLmUQDhG6'')
   \<and> \<not> py_in ''track/'' ''6rqhFgbbKwnb9MLmUQDhG6''"
  by (simp add: extract_spotify_id_from_href_def py_in_def py_split1_def startswith_def)

section \<open>The tempo filter\<close>

lemma filter_loop_eq:
  "filter_tracks_by_tempo_loop td lo hi ids acc =
     acc @ filter (\<lambda>t. \<exists>m r. td t = Some m \<and> fetch_status m = ''ok'' \<and> tempo m = Some (Fin r)
                        \<and> real_of_int lo \<le> r \<and> r \<le> real_of_int hi) ids"
proof (induction ids arbitrary: acc)
  case Nil
  then show ?case by simp
next
  case (Cons t ids)
  show ?case
  proof (cases "td t")
    case None
    then show ?thesis using Cons.IH by simp
  next
    case (Some m)
    show ?thesis
    proof (cases "tempo m")
      case None
      with Some show ?thesis using Cons.IH by simp
    next
      case (Some f)
      with \<open>td t = Some m\<close> show ?thesis using Cons.IH by (cases f) auto
    qed
  qed
qed

text \<open>
  Claim C5. \<open>filter_tracks_by_tempo\<close> keeps, in order, exactly the identities whose entry
  exists in the map, has \<open>fetch_status = ok\<close> and a tempo \<open>r\<close> with
  \<open>cadence_bpm \<le> r \<le> cadence_bpm + 9\<close>. For the cadence 160 the tempos 160 and 169 are
  kept and 159.9 and 169.1 are not; an identity that is absent from the map, marked
  \<open>no_data\<close> or without tempo is dropped, and the function has no error to raise.
\<close>

theorem filter_tracks_by_tempo_band:
  "filter_tracks_by_tempo ids td c =
     filter (\<lambda>t. \<exists>m r. td t = Some m \<and> fetch_status m = ''ok'' \<and> tempo m = Some (Fin r)
                   \<and> real_of_int c \<le> r \<and> r \<le> real_of_int c + 9) ids
   \<and> (td t = Some m \<and> fetch_status m = ''ok'' \<and> tempo m = Some (Fin 160) \<longrightarrow>
        filter_tracks_by_tempo [t] td 160 = [t])
   \<and> (td t = Some m \<and> fetch_status m = ''ok'' \<and> tempo m = Some (Fin 169) \<longrightarrow>
        filter_tracks_by_tempo [t] td 160 = [t])
   \<and> (td t = Some m \<and> tempo m = Some (Fin (1599 / 10)) \<longrightarrow>
        filter_tracks_by_tempo [t] td 160 = [])
   \<and> (td t = Some m \<and> tempo m = Some (Fin (1691 / 10)) \<longrightarrow>
        filter_tracks_by_tempo [t] td 160 = [])
   \<and> (td t = None \<longrightarrow> filter_tracks_by_tempo [t] td c = [])
   \<and> (td t = Some m \<and> fetch_status m = ''no_data'' \<longrightarrow> filter_tracks_by_tempo [t] td c = [])
   \<and> (td t = Some m \<and> tempo m = None \<longrightarrow> filter_tracks_by_tempo [t] td c = [])"
proof -
  have "filter_tracks_by_tempo ids td c =
     filter (\<lambda>t. \<exists>m r. td t = Some m \<and> fetch_status m = ''ok'' \<and> tempo m = Some (Fin r)
                   \<and> real_of_int c \<le> r \<and> r \<le> real_of_int c + 9) ids"
    by (simp add: filter_tracks_by_tempo_def filter_loop_eq)
  moreover have "td t = Some m \<and> fetch_status m = ''ok'' \<and> tempo m = Some (Fin 160) \<longrightarrow>
        filter_tracks_by_tempo [t] td 160 = [t]"
    by (auto simp: filter_tracks_by_tempo_def Let_def)
  moreover have "td t = Some m \<and> fetch_status m = ''ok'' \<and> tempo m = Some (Fin 169) \<longrightarrow>
        filter_tracks_by_tempo [t] td 160 = [t]"
    by (auto simp: filter_tracks_by_tempo_def Let_def)
  moreover have "td t = Some m \<and> tempo m = Some (Fin (1599 / 10)) \<longrightarrow>
        filter_tracks_by_tempo [t] td 160 = []"
    by (auto simp: filter_tracks_by_tempo_def Let_def)
  moreover have "td t = Some m \<and> tempo m = Some (Fin (1691 / 10)) \<longrightarrow>
        filter_tracks_by_tempo [t] td 160 = []"
    by (auto simp: filter_tracks_by_tempo_def Let_def)
  moreover have "td t = None \<longrightarrow> filter_tracks_by_tempo [t] td c = []"
    by (auto simp: filter_tracks_by_tempo_def Let_def)
  moreover have "td t = Some m \<and> fetch_status m = ''no_data'' \<longrightarrow>
        filter_tracks_by_tempo [t] td c = []"
    by (auto simp: filter_tracks_by_tempo_def Let_def)
  moreover have "td t = Some m \<and> tempo m = None \<longrightarrow> filter_tracks_by_tempo [t] td c = []"
    by (auto simp: filter_tracks_by_tempo_def Let_def)
  ultimately show ?thesis by blast
qed

text \<open>
  Seven tracks at the cadence 160: the tempos 160 and 169 pass; 159.9, 169.1, a
  \<open>no_data\<close> row, a row without tempo and an identity that is not in the map do not.
\<close>

theorem filter_tracks_by_tempo_band_witness:
  "filter_tracks_by_tempo [''a'', ''b'', ''c'', ''d'', ''e'', ''f'', ''g'']
     [''a'' \<mapsto> \<lparr>tempo = Some (Fin 160), features = None, entry_last_fetched = [], fetch_status = ''ok''\<rparr>,
      ''b'' \<mapsto> \<lparr>tempo = Some (Fin 169), features = None, entry_last_fetched = [], fetch_status = ''ok''\<rparr>,
      ''c'' \<mapsto> \<lparr>tempo = Some (Fin (1599 / 10)), features = None, entry_last_fetched = [], fetch_status = ''ok''\<rparr>,
      ''d'' \<mapsto> \<lparr>tempo = Some (Fin (1691 / 10)), features = None, entry_last_fetched = [], fetch_status = ''ok''\<rparr>,
      ''e'' \<mapsto> \<lparr>tempo = None, features = None, entry_last_fetched = [], fetch_status = ''no_data''\<rparr>,
      ''f'' \<mapsto> \<lparr>tempo = None, features = None, entry_last_fetched = [], fetch_status = ''ok''\<rparr>]
     160 = [''a'', ''b'']"
  using filter_tracks_by_tempo_band
    [of "[''a'', ''b'', ''c'', ''d'', ''e'', ''f'', ''g'']"
      "[''a'' \<mapsto> \<lparr>tempo = Some (Fin 160), features = None, entry_last_fetched = [], fetch_status = ''ok''\<rparr>,
        ''b'' \<mapsto> \<lparr>tempo = Some (Fin 169), features = None, entry_last_fetched = [], fetch_status = ''ok''\<rparr>,
        ''c'' \<mapsto> \<lparr>tempo = Some (Fin (1599 / 10)), features = None, entry_last_fetched = [], fetch_status = ''ok''\<rparr>,
        ''d'' \<mapsto> \<lparr>tempo = Some (Fin (1691 / 10)), features = None, entry_last_fetched = [], fetch_status = ''ok''\<rparr>,
        ''e'' \<mapsto> \<lparr>tempo = None, features = None, entry_last_fetched = [], fetch_status = ''no_data''\<rparr>,
        ''f'' \<mapsto> \<lparr>tempo = None, features = None, entry_last_fetched = [], fetch_status = ''ok''\<rparr>]"
      160]
  by simp

section \<open>The track feature table\<close>

lemma mark_loop_lookup:
  "mark_tracks_no_data_loop b now ids tbl k =
     (if k \<in> set ids then Some (no_data_row b now) else tbl k)"
  by (induction ids arbitrary: tbl) auto

lemma save_loop_lookup:
  "save_track_features_loop b now objs tbl = Inr tbl' \<Longrightarrow>
     ((\<exists>obj\<in>set objs. href_id obj = Inr (Some k)) \<longrightarrow>
        (\<exists>obj\<in>set objs. \<exists>t tv. href_id obj = Inr (Some k) \<and> py_get obj ''tempo'' = Inr t
             \<and> tempo_val b t = Inr tv \<and> tbl' k = Some (ok_row b now obj tv)))
     \<and> ((\<forall>obj\<in>set objs. href_id obj \<noteq> Inr (Some k)) \<longrightarrow> tbl' k = tbl k)"
proof (induction objs arbitrary: tbl)
  case Nil
  then show ?case by simp
next
  case (Cons obj objs)
  show ?case
  proof (cases "href_id obj")
    case (Inl e)
    with Cons.prems show ?thesis by simp
  next
    case (Inr v)
    show ?thesis
    proof (cases v)
      case None
      with Inr Cons.prems have "save_track_features_loop b now objs tbl = Inr tbl'" by simp
      from Cons.IH[OF this] have
        "(\<exists>obj\<in>set objs. href_id obj = Inr (Some k)) \<longrightarrow>
           (\<exists>obj\<in>set objs. \<exists>t tv. href_id obj = Inr (Some k) \<and> py_get obj ''tempo'' = Inr t
             \<and> tempo_val b t = Inr tv \<and> tbl' k = Some (ok_row b now obj tv))"
        and "(\<forall>obj\<in>set objs. href_id obj \<noteq> Inr (Some k)) \<longrightarrow> tbl' k = tbl k"
        by blast+
      moreover have "href_id obj \<noteq> Inr (Some k)" using Inr None by simp
      ultimately show ?thesis by (simp del: save_track_features_loop.simps; blast)
    next
      case (Some sid)
      with Inr Cons.prems obtain t tv where
        t: "py_get obj ''tempo'' = Inr t" "tempo_val b t = Inr tv" and
        rest: "save_track_features_loop b now objs (tbl(sid \<mapsto> ok_row b now obj tv)) = Inr tbl'"
        by (auto split: sum.splits)
      show ?thesis
      proof (cases "\<exists>obj'\<in>set objs. href_id obj' = Inr (Some k)")
        case True
        with Cons.IH[OF rest] have
          "\<exists>obj\<in>set objs. \<exists>t tv. href_id obj = Inr (Some k) \<and> py_get obj ''tempo'' = Inr t
             \<and> tempo_val b t = Inr tv \<and> tbl' k = Some (ok_row b now obj tv)"
          by blast
        with True show ?thesis by (simp del: save_track_features_loop.simps; blast)
      next
        case False
        with Cons.IH[OF rest] have k: "tbl' k = (tbl(sid \<mapsto> ok_row b now obj tv)) k" by blast
        show ?thesis
        proof (cases "sid = k")
          case True
          with k have "tbl' k = Some (ok_row b now obj tv)" by simp
          with True Inr Some t show ?thesis by (simp del: save_track_features_loop.simps; blast)
        next
          case False
          with k have "tbl' k = tbl k" by simp
          moreover from False Inr Some have "href_id obj \<noteq> Inr (Some k)" by simp
          ultimately show ?thesis
            using \<open>\<not> (\<exists>obj'\<in>set objs. href_id obj' = Inr (Some k))\<close>
            by (simp del: save_track_features_loop.simps)
        qed
      qed
    qed
  qed
qed

lemma save_loop_returned:
  "save_track_features_loop b now objs tbl = Inr tbl' \<Longrightarrow>
     returned_ids_loop objs R = Inr (R \<union> {sid. \<exists>obj\<in>set objs. href_id obj = Inr (Some sid)})"
proof (induction objs arbitrary: tbl R)
  case Nil
  then show ?case by simp
next
  case (Cons obj objs)
  show ?case
  proof (cases "href_id obj")
    case (Inl e)
    with Cons.prems show ?thesis by simp
  next
    case (Inr v)
    show ?thesis
    proof (cases v)
      case None
      with Inr Cons.prems have "save_track_features_loop b now objs tbl = Inr tbl'" by simp
      from Cons.IH[OF this, of R] Inr None show ?thesis by auto
    next
      case (Some sid)
      with Inr Cons.prems obtain tv where
        "save_track_features_loop b now objs (tbl(sid \<mapsto> ok_row b now obj tv)) = Inr tbl'"
        by (auto split: sum.splits)
      from Cons.IH[OF this, of "insert sid R"] Inr Some show ?thesis by auto
    qed
  qed
qed

lemma save_loop_row:
  assumes "save_track_features_loop b now objs tbl = Inr tbl'"
  shows "tbl' k = tbl k \<or> (\<exists>obj tv. tbl' k = Some (ok_row b now obj tv))"
  using save_loop_lookup[OF assms, of k] by blast

lemma ok_row_invariant: "row_invariant (ok_row b now obj tv)"
  by (simp add: ok_row_def)

lemma no_data_row_invariant: "row_invariant (no_data_row b now)"
  by (simp add: no_data_row_def)

text \<open>
  Claim C8. If every row of the track feature table satisfies the invariant (a tempo
  only with status \<open>ok\<close>; with status \<open>no_data\<close> neither tempo nor raw features), then so
  does every row after \<open>save_track_features\<close> and after \<open>mark_tracks_no_data\<close>, and so does
  every entry that \<open>load_track_features\<close> returns. A row that the save changes has status
  \<open>ok\<close>; the rows that the marking writes have status \<open>no_data\<close>, no tempo and no raw
  features, and it changes no other row.
\<close>

theorem track_features_invariant:
  "((\<forall>k r. track_features st k = Some r \<longrightarrow> row_invariant r) \<longrightarrow>
      (save_track_features b now objs st = Inr st' \<longrightarrow>
         (\<forall>k r. track_features st' k = Some r \<longrightarrow> row_invariant r))
      \<and> (\<forall>k r. track_features (mark_tracks_no_data b now ids st) k = Some r \<longrightarrow> row_invariant r)
      \<and> (\<forall>k e. load_track_features st ids k = Some e \<longrightarrow>
           (tempo e \<noteq> None \<longrightarrow> fetch_status e = ''ok'')
           \<and> (fetch_status e = ''no_data'' \<longrightarrow> tempo e = None \<and> features e = None)))
   \<and> (save_track_features b now objs st = Inr st' \<and> track_features st' k \<noteq> track_features st k
        \<longrightarrow> (\<exists>r. track_features st' k = Some r \<and> row_fetch_status r = ''ok''))
   \<and> (k \<in> set ids \<longrightarrow>
        (\<exists>r. track_features (mark_tracks_no_data b now ids st) k = Some r
           \<and> row_fetch_status r = ''no_data'' \<and> row_tempo r = None \<and> row_features_json r = None))
   \<and> (k \<notin> set ids \<longrightarrow>
        track_features (mark_tracks_no_data b now ids st) k = track_features st k)"
proof -
  have save_inv: "\<forall>k r. track_features st' k = Some r \<longrightarrow> row_invariant r"
    if inv: "\<forall>k r. track_features st k = Some r \<longrightarrow> row_invariant r"
      and sv: "save_track_features b now objs st = Inr st'"
  proof (intro allI impI)
    fix k r
    assume r: "track_features st' k = Some r"
    from sv have loop: "save_track_features_loop b now objs (track_features st) =
        Inr (track_features st')"
      by (auto simp: save_track_features_def split: sum.splits)
    from save_loop_row[OF loop, of k] r inv show "row_invariant r"
      using ok_row_invariant by (metis option.inject)
  qed
  have mark_inv: "\<forall>k r. track_features (mark_tracks_no_data b now ids st) k = Some r
        \<longrightarrow> row_invariant r"
    if inv: "\<forall>k r. track_features st k = Some r \<longrightarrow> row_invariant r"
    using inv no_data_row_invariant
    by (auto simp: mark_tracks_no_data_def mark_loop_lookup split: if_splits)
  have load_inv: "\<forall>k e. load_track_features st ids k = Some e \<longrightarrow>
           (tempo e \<noteq> None \<longrightarrow> fetch_status e = ''ok'')
           \<and> (fetch_status e = ''no_data'' \<longrightarrow> tempo e = None \<and> features e = None)"
    if inv: "\<forall>k r. track_features st k = Some r \<longrightarrow> row_invariant r"
    using inv by (auto simp: load_track_features_def entry_of_row_def split: if_splits)
  have save_ok: "\<exists>r. track_features st' k = Some r \<and> row_fetch_status r = ''ok''"
    if sv: "save_track_features b now objs st = Inr st'"
      and ch: "track_features st' k \<noteq> track_features st k"
  proof -
    from sv have loop: "save_track_features_loop b now objs (track_features st) =
        Inr (track_features st')"
      by (auto simp: save_track_features_def split: sum.splits)
    from save_loop_row[OF loop, of k] ch show ?thesis by (auto simp: ok_row_def)
  qed
  have mark_in: "k \<in> set ids \<longrightarrow>
        (\<exists>r. track_features (mark_tracks_no_data b now ids st) k = Some r
           \<and> row_fetch_status r = ''no_data'' \<and> row_tempo r = None \<and> row_features_json r = None)"
    by (simp add: mark_tracks_no_data_def mark_loop_lookup no_data_row_def)
  have mark_out: "k \<notin> set ids \<longrightarrow>
        track_features (mark_tracks_no_data b now ids st) k = track_features st k"
    by (simp add: mark_tracks_no_data_def mark_loop_lookup)
  show ?thesis using save_inv mark_inv load_inv save_ok mark_in mark_out by blast
qed

lemma example_timestamp:
  "current_timestamp example_builtins 63839664000000000 = ''2024-01-01 00:00:00''"
  by (simp add: example_builtins_def)

lemma example_href_id:
  "href_id (JObj ((''href'', JStr ''https://api.reccobeats.com/v1/track/t1'') # kvs)) =
     Inr (Some ''t1'')"
proof -
  have "partition_at ''track/'' ''https://api.reccobeats.com/v1/track/t1'' =
      Some (''https://api.reccobeats.com/v1/'', ''t1'')"
    by (simp add: startswith_def)
  then show ?thesis
    by (simp add: href_id_def py_get_def extract_spotify_id_from_href_def py_in_def
        py_split1_def startswith_def)
qed

text \<open>
  On the empty store: saving one feature object writes an \<open>ok\<close> row with its tempo,
  marking writes a \<open>no_data\<close> row, and both tables satisfy the invariant.
\<close>

theorem track_features_invariant_witness:
  "save_track_features example_builtins 63839664000000000
      [JObj [(''href'', JStr ''https://api.reccobeats.com/v1/track/t1''),
             (''tempo'', JFloat (Fin (241 / 2)))]] init_db =
     Inr (init_db\<lparr>track_features :=
        [''t1'' \<mapsto> \<lparr>row_tempo = Some (Fin (241 / 2)),
           row_features_json =
             Some (JObj [(''href'', JStr ''https://api.reccobeats.com/v1/track/t1''),
                         (''tempo'', JFloat (Fin (241 / 2)))]),
           row_last_fetched = ''2024-01-01 00:00:00'', row_fetch_status = ''ok''\<rparr>]\<rparr>)
   \<and> (\<exists>r. track_features (init_db\<lparr>track_features :=
        [''t1'' \<mapsto> \<lparr>row_tempo = Some (Fin (241 / 2)),
           row_features_json =
             Some (JObj [(''href'', JStr ''https://api.reccobeats.com/v1/track/t1''),
                         (''tempo'', JFloat (Fin (241 / 2)))]),
           row_last_fetched = ''2024-01-01 00:00:00'', row_fetch_status = ''ok''\<rparr>]\<rparr>) ''t1''
          = Some r \<and> row_invariant r)
   \<and> (\<exists>r. track_features (mark_tracks_no_data example_builtins 63839664000000000 [''t3'']
          init_db) ''t3'' = Some r \<and> row_fetch_status r = ''no_data'' \<and> row_invariant r)"
proof -
  define st1 where "st1 = init_db\<lparr>track_features :=
        [''t1'' \<mapsto> \<lparr>row_tempo = Some (Fin (241 / 2)),
           row_features_json =
             Some (JObj [(''href'', JStr ''https://api.reccobeats.com/v1/track/t1''),
                         (''tempo'', JFloat (Fin (241 / 2)))]),
           row_last_fetched = ''2024-01-01 00:00:00'', row_fetch_status = ''ok''\<rparr>]\<rparr>"
  define objs where "objs = [JObj [(''href'', JStr ''https://api.reccobeats.com/v1/track/t1''),
             (''tempo'', JFloat (Fin (241 / 2)))]]"
  define st3 where "st3 = mark_tracks_no_data example_builtins 63839664000000000 [''t3''] init_db"
  have inv: "\<forall>k r. track_features init_db k = Some r \<longrightarrow> row_invariant r"
    by (simp add: init_db_def)
  have sv: "save_track_features example_builtins 63839664000000000 objs init_db = Inr st1"
    unfolding objs_def st1_def
    using example_href_id[of "[(''tempo'', JFloat (Fin (241 / 2)))]"]
    by (simp add: save_track_features_def py_get_def tempo_val_def py_float_def sql_real_def
        ok_row_def example_timestamp init_db_def)
  have in3: "''t3'' \<in> set [''t3'']" by simp
  note T = track_features_invariant [of init_db example_builtins 63839664000000000
        objs st1 "[''t3'']" "''t3''"]
  from T inv sv have A: "\<forall>k r. track_features st1 k = Some r \<longrightarrow> row_invariant r"
    by blast
  from T inv have B: "\<forall>k r. track_features st3 k = Some r \<longrightarrow> row_invariant r"
    unfolding st3_def by blast
  from T in3 obtain r3 where r3: "track_features st3 ''t3'' = Some r3"
    "row_fetch_status r3 = ''no_data''"
    unfolding st3_def by blast
  obtain r1 where r1: "track_features st1 ''t1'' = Some r1" by (simp add: st1_def)
  from A r1 have i1: "row_invariant r1" by blast
  from B r3 have i3: "row_invariant r3" by blast
  have "save_track_features example_builtins 63839664000000000 objs init_db = Inr st1
     \<and> (\<exists>r. track_features st1 ''t1'' = Some r \<and> row_invariant r)
     \<and> (\<exists>r. track_features st3 ''t3'' = Some r \<and> row_fetch_status r = ''no_data''
           \<and> row_invariant r)"
    using sv r1 i1 r3 i3 by blast
  then show ?thesis unfolding st1_def objs_def st3_def .
qed

section \<open>A tempo that does not coerce\<close>

lemma tempo_val_unconvertible:
  "(\<exists>s. t = JStr s \<and> float_of_str b s = None) \<or> (\<exists>xs. t = JList xs) \<or> (\<exists>kvs. t = JObj kvs)
     \<Longrightarrow> tempo_val b t = Inr None"
  by (auto simp: tempo_val_def py_float_def)

lemma filter_excludes_no_tempo:
  "td sid = Some m \<Longrightarrow> tempo m = None \<Longrightarrow> sid \<notin> set (filter_tracks_by_tempo ids td c)"
  by (simp add: filter_tracks_by_tempo_def filter_loop_eq)

lemma filter_excludes_absent:
  "td sid = None \<Longrightarrow> sid \<notin> set (filter_tracks_by_tempo ids td c)"
  by (simp add: filter_tracks_by_tempo_def filter_loop_eq)

text \<open>
  Claim C10. Take a feature object with an identity whose tempo field is a string that
  \<open>float\<close> rejects, a list or a dict. The coercion error is caught: the loop of
  \<open>save_track_features\<close> raises nothing at this object and goes on with the remaining
  ones after writing the row with no tempo and status \<open>ok\<close>; saving the object alone
  returns normally with exactly that row written; and the tempo filter drops the
  identity afterwards.
\<close>

theorem save_track_features_unconvertible_tempo:
  "href_id obj = Inr (Some sid) \<and> py_get obj ''tempo'' = Inr t
     \<and> ((\<exists>s. t = JStr s \<and> float_of_str b s = None) \<or> (\<exists>xs. t = JList xs)
          \<or> (\<exists>kvs. t = JObj kvs)) \<longrightarrow>
   save_track_features_loop b now (obj # objs) tbl =
     save_track_features_loop b now objs (tbl(sid \<mapsto> ok_row b now obj None))
   \<and> save_track_features b now [obj] st =
       Inr (st\<lparr>track_features := (track_features st)(sid \<mapsto> ok_row b now obj None)\<rparr>)
   \<and> row_tempo (ok_row b now obj None) = None
   \<and> row_fetch_status (ok_row b now obj None) = ''ok''
   \<and> sid \<notin> set (filter_tracks_by_tempo ids
        (load_track_features
           (st\<lparr>track_features := (track_features st)(sid \<mapsto> ok_row b now obj None)\<rparr>) ids) c)"
proof (intro impI)
  assume h: "href_id obj = Inr (Some sid) \<and> py_get obj ''tempo'' = Inr t
     \<and> ((\<exists>s. t = JStr s \<and> float_of_str b s = None) \<or> (\<exists>xs. t = JList xs)
          \<or> (\<exists>kvs. t = JObj kvs))"
  then have tv: "tempo_val b t = Inr None" using tempo_val_unconvertible by blast
  have row: "row_tempo (ok_row b now obj None) = None"
    "row_fetch_status (ok_row b now obj None) = ''ok''"
    by (simp_all add: ok_row_def sql_real_def)
  have step: "save_track_features_loop b now (obj # objs) tbl =
     save_track_features_loop b now objs (tbl(sid \<mapsto> ok_row b now obj None))" for objs tbl
    using h tv by simp
  have one: "save_track_features b now [obj] st =
       Inr (st\<lparr>track_features := (track_features st)(sid \<mapsto> ok_row b now obj None)\<rparr>)"
    using step[of "[]" "track_features st"] by (simp add: save_track_features_def)
  have "sid \<notin> set (filter_tracks_by_tempo ids
        (load_track_features
           (st\<lparr>track_features := (track_features st)(sid \<mapsto> ok_row b now obj None)\<rparr>) ids) c)"
  proof (cases "sid \<in> set ids")
    case True
    then show ?thesis
      by (intro filter_excludes_no_tempo[where m = "entry_of_row (ok_row b now obj None)"])
        (simp_all add: load_track_features_def entry_of_row_def row)
  next
    case False
    then show ?thesis
      by (intro filter_excludes_absent) (simp add: load_track_features_def)
  qed
  with step one row show "save_track_features_loop b now (obj # objs) tbl =
     save_track_features_loop b now objs (tbl(sid \<mapsto> ok_row b now obj None))
   \<and> save_track_features b now [obj] st =
       Inr (st\<lparr>track_features := (track_features st)(sid \<mapsto> ok_row b now obj None)\<rparr>)
   \<and> row_tempo (ok_row b now obj None) = None
   \<and> row_fetch_status (ok_row b now obj None) = ''ok''
   \<and> sid \<notin> set (filter_tracks_by_tempo ids
        (load_track_features
           (st\<lparr>track_features := (track_features st)(sid \<mapsto> ok_row b now obj None)\<rparr>) ids) c)"
    by blast
qed

text \<open>
  A feature object whose tempo is the string \<open>fast\<close>: the save returns normally, the row
  has no tempo and status \<open>ok\<close>, and the filter at cadence 160 drops the track.
\<close>

theorem save_track_features_unconvertible_tempo_witness:
  "save_track_features example_builtins 63839664000000000
      [JObj [(''href'', JStr ''https://api.reccobeats.com/v1/track/t1''),
             (''tempo'', JStr ''fast'')]] init_db =
     Inr (init_db\<lparr>track_features :=
        [''t1'' \<mapsto> \<lparr>row_tempo = None,
           row_features_json =
             Some (JObj [(''href'', JStr ''https://api.reccobeats.com/v1/track/t1''),
                         (''tempo'', JStr ''fast'')]),
           row_last_fetched = ''2024-01-01 00:00:00'', row_fetch_status = ''ok''\<rparr>]\<rparr>)
   \<and> ''t1'' \<notin> set (filter_tracks_by_tempo [''t1'']
        (load_track_features (init_db\<lparr>track_features :=
          [''t1'' \<mapsto> \<lparr>row_tempo = None,
             row_features_json =
               Some (JObj [(''href'', JStr ''https://api.reccobeats.com/v1/track/t1''),
                           (''tempo'', JStr ''fast'')]),
             row_last_fetched = ''2024-01-01 00:00:00'', row_fetch_status = ''ok''\<rparr>]\<rparr>)
           [''t1'']) 160)"
proof -
  have t: "py_get (JObj [(''href'', JStr ''https://api.reccobeats.com/v1/track/t1''),
             (''tempo'', JStr ''fast'')]) ''tempo'' = Inr (JStr ''fast'')"
    by (simp add: py_get_def)
  have f: "\<exists>s. JStr ''fast'' = JStr s \<and> float_of_str example_builtins s = None"
    by (simp add: example_builtins_def)
  have row: "(track_features init_db)(''t1'' \<mapsto> ok_row example_builtins 63839664000000000
        (JObj [(''href'', JStr ''https://api.reccobeats.com/v1/track/t1''),
               (''tempo'', JStr ''fast'')]) None) =
      [''t1'' \<mapsto> \<lparr>row_tempo = None,
           row_features_json =
             Some (JObj [(''href'', JStr ''https://api.reccobeats.com/v1/track/t1''),
                         (''tempo'', JStr ''fast'')]),
           row_last_fetched = ''2024-01-01 00:00:00'', row_fetch_status = ''ok''\<rparr>]"
    by (simp add: ok_row_def sql_real_def example_timestamp init_db_def)
  have "save_track_features example_builtins 63839664000000000
      [JObj [(''href'', JStr ''https://api.reccobeats.com/v1/track/t1''),
             (''tempo'', JStr ''fast'')]] init_db =
       Inr (init_db\<lparr>track_features := (track_features init_db)(''t1'' \<mapsto>
          ok_row example_builtins 63839664000000000
            (JObj [(''href'', JStr ''https://api.reccobeats.com/v1/track/t1''),
                   (''tempo'', JStr ''fast'')]) None)\<rparr>)
   \<and> ''t1'' \<notin> set (filter_tracks_by_tempo [''t1'']
        (load_track_features
           (init_db\<lparr>track_features := (track_features init_db)(''t1'' \<mapsto>
              ok_row example_builtins 63839664000000000
                (JObj [(''href'', JStr ''https://api.reccobeats.com/v1/track/t1''),
                       (''tempo'', JStr ''fast'')]) None)\<rparr>) [''t1'']) 160)"
    using example_href_id[of "[(''tempo'', JStr ''fast'')]"] t f
      save_track_features_unconvertible_tempo
        [of "JObj [(''href'', JStr ''https://api.reccobeats.com/v1/track/t1''),
                   (''tempo'', JStr ''fast'')]" "''t1''" "JStr ''fast''" example_builtins
            63839664000000000 "[]" Map.empty init_db "[''t1'']" 160]
    by blast
  then show ?thesis unfolding row .
qed

text \<open>
  The coercion catches \<open>ValueError\<close> and \<open>TypeError\<close> only. An integer tempo beyond the
  range of a double makes \<open>float\<close> raise \<open>OverflowError\<close>, which leaves
  \<open>save_track_features\<close>; the transaction is rolled back.
\<close>

lemma save_track_features_overflow:
  "href_id obj = Inr (Some sid) \<Longrightarrow> py_get obj ''tempo'' = Inr (JInt n)
     \<Longrightarrow> float_of_int b n = None
     \<Longrightarrow> save_track_features b now (obj # objs) st = Inl OverflowError"
  by (simp add: save_track_features_def tempo_val_def py_float_def)

section \<open>Fetch or reuse\<close>

lemma cached_payload_hit:
  "cached = Some c \<Longrightarrow> is_stale b now (LfStr (last_fetched c)) CACHE_TTL_DAYS = Inr False
     \<Longrightarrow> cached_payload b now cached = Inr (Some (payload c))"
  by (simp add: cached_payload_def)




text \<open>
  Claim C7. When the record of the key is present and not stale, each of the four fetch
  functions returns the cached payload, leaves the store as it is and makes no upstream
  call; so its result is the same for any two clients (and, for the saved tracks, for any
  fuel of the pagination loop, which is not entered).
\<close>

theorem fetch_fresh_record_fast_path:
  "(load_user_spotify_data st user_id ''top_tracks'' = Some c
      \<and> is_stale b now (LfStr (last_fetched c)) CACHE_TTL_DAYS = Inr False \<longrightarrow>
      fetch_user_top_tracks b now sp user_id limit st = (Inr (payload c), st, [])
      \<and> fetch_user_top_tracks b now sp' user_id limit st =
          fetch_user_top_tracks b now sp user_id limit st)
   \<and> (load_user_spotify_data st user_id ''saved_tracks'' = Some c
      \<and> is_stale b now (LfStr (last_fetched c)) CACHE_TTL_DAYS = Inr False \<longrightarrow>
      fetch_user_saved_tracks fuel b now sp user_id limit st = Some (Inr (payload c), st, [])
      \<and> fetch_user_saved_tracks fuel' b now sp' user_id limit st =
          fetch_user_saved_tracks fuel b now sp user_id limit st)
   \<and> (load_user_spotify_data st user_id ''top_artists'' = Some c
      \<and> is_stale b now (LfStr (last_fetched c)) CACHE_TTL_DAYS = Inr False \<longrightarrow>
      fetch_user_top_artists b now sp user_id limit st = (Inr (payload c), st, [])
      \<and> fetch_user_top_artists b now sp' user_id limit st =
          fetch_user_top_artists b now sp user_id limit st)
   \<and> (load_artist_top_tracks st artist_id = Some c
      \<and> is_stale b now (LfStr (last_fetched c)) CACHE_TTL_DAYS = Inr False \<longrightarrow>
      fetch_artist_top_tracks b now sp artist_id st = (Inr (payload c), st, [])
      \<and> fetch_artist_top_tracks b now sp' artist_id st =
          fetch_artist_top_tracks b now sp artist_id st)"
proof -
  have hit: "cached_payload b now (Some c) = Inr (Some (payload c))"
    if "is_stale b now (LfStr (last_fetched c)) CACHE_TTL_DAYS = Inr False"
    using that cached_payload_hit by blast
  show ?thesis
    using hit
    by (auto simp del: is_stale_default
        simp: fetch_user_top_tracks_def fetch_user_saved_tracks_def
          fetch_user_top_artists_def fetch_artist_top_tracks_def)
qed

text \<open>
  The client of the example: the record of user \<open>u1\<close> is fresh at the time of the call,
  and no method of the failing client is called.
\<close>

theorem fetch_fresh_record_fast_path_witness:
  "fetch_user_top_tracks example_builtins 63839664000000000 failing_spotify ''u1'' 50
      (save_user_spotify_data example_builtins 63839664000000000 ''u1'' ''top_tracks''
         (JList [JObj [(''id'', JStr ''t1'')]]) init_db) =
     (Inr (JList [JObj [(''id'', JStr ''t1'')]]),
      save_user_spotify_data example_builtins 63839664000000000 ''u1'' ''top_tracks''
         (JList [JObj [(''id'', JStr ''t1'')]]) init_db, [])"
proof -
  define st where "st = save_user_spotify_data example_builtins 63839664000000000 ''u1''
      ''top_tracks'' (JList [JObj [(''id'', JStr ''t1'')]]) init_db"
  define c where "c = \<lparr>payload = JList [JObj [(''id'', JStr ''t1'')]], row_count = 1,
      last_fetched = ''2024-01-01 00:00:00''\<rparr>"
  have ld: "load_user_spotify_data st ''u1'' ''top_tracks'' = Some c"
    by (simp add: st_def c_def load_user_spotify_data_def save_user_spotify_data_def
        payload_count_def example_timestamp)
  have fresh: "is_stale example_builtins 63839664000000000 (LfStr (last_fetched c))
      CACHE_TTL_DAYS = Inr False"
    by (simp add: c_def example_builtins_def)
  have "fetch_user_top_tracks example_builtins 63839664000000000 failing_spotify ''u1'' 50 st =
      (Inr (payload c), st, [])"
    using ld fresh
      fetch_fresh_record_fast_path [of st "''u1''" c example_builtins 63839664000000000
        failing_spotify 50]
    by blast
  then show ?thesis by (simp add: st_def c_def)
qed





section \<open>The batch reconciler\<close>

declare chunk_loop.simps [simp del]

lemma missing_ids_loop_eq:
  "missing_ids_loop b now cached ids acc =
     Inr (acc @ filter (\<lambda>t. cached t = None
            \<or> (\<exists>e. cached t = Some e
                  \<and> (fetch_status e = ''ok'' \<or> fetch_status e = ''no_data'')
                  \<and> is_stale b now (LfStr (entry_last_fetched e)) CACHE_TTL_DAYS = Inr True))
          ids)"
proof (induction ids arbitrary: acc)
  case Nil
  then show ?case by simp
next
  case (Cons t ids)
  show ?case
  proof (cases "cached t")
    case None
    then show ?thesis using Cons.IH by simp
  next
    case (Some e)
    then show ?thesis using Cons.IH by (auto simp: status_and_stale_def)
  qed
qed

lemma load_track_features_lookup:
  "t \<in> set ids \<Longrightarrow> load_track_features st ids t = map_option entry_of_row (track_features st t)"
  by (simp add: load_track_features_def)

lemma missing_filter_store:
  "filter (\<lambda>t. load_track_features st ids t = None
            \<or> (\<exists>e. load_track_features st ids t = Some e
                  \<and> (fetch_status e = ''ok'' \<or> fetch_status e = ''no_data'')
                  \<and> is_stale b now (LfStr (entry_last_fetched e)) CACHE_TTL_DAYS = Inr True))
      ids =
   filter (\<lambda>t. track_features st t = None
            \<or> (\<exists>r. track_features st t = Some r
                  \<and> (row_fetch_status r = ''ok'' \<or> row_fetch_status r = ''no_data'')
                  \<and> is_stale b now (LfStr (row_last_fetched r)) CACHE_TTL_DAYS = Inr True))
      ids"
proof (rule filter_cong[OF refl])
  fix t
  assume "t \<in> set ids"
  then have l: "load_track_features st ids t = map_option entry_of_row (track_features st t)"
    by (rule load_track_features_lookup)
  show "(load_track_features st ids t = None
            \<or> (\<exists>e. load_track_features st ids t = Some e
                  \<and> (fetch_status e = ''ok'' \<or> fetch_status e = ''no_data'')
                  \<and> is_stale b now (LfStr (entry_last_fetched e)) CACHE_TTL_DAYS = Inr True))
      = (track_features st t = None
            \<or> (\<exists>r. track_features st t = Some r
                  \<and> (row_fetch_status r = ''ok'' \<or> row_fetch_status r = ''no_data'')
                  \<and> is_stale b now (LfStr (row_last_fetched r)) CACHE_TTL_DAYS = Inr True))"
    unfolding l by (cases "track_features st t") (auto simp: entry_of_row_def)
qed

lemma chunk_loop_step:
  "i < length ms \<Longrightarrow>
     chunk_loop b now api ms i st =
       (case try_chunk b now api i (take 40 (drop i ms)) st of
          (exc, st') \<Rightarrow>
            if exc = None \<or> exc = Some RequestException
            then (case chunk_loop b now api ms (i + 40) st' of
                    (r, st'', reqs) \<Rightarrow> (r, st'', take 40 (drop i ms) # reqs))
            else (exc, st', [take 40 (drop i ms)]))"
  by (subst chunk_loop.simps) (simp add: Let_def split: prod.splits)

lemma chunk_loop_done:
  "\<not> i < length ms \<Longrightarrow> chunk_loop b now api ms i st = (None, st, [])"
  by (subst chunk_loop.simps) simp

lemma chunk_count_step:
  fixes L :: nat
  assumes "0 < L"
  shows "(L + 39) div 40 = Suc ((L - 40 + 39) div 40)"
proof (cases "40 \<le> L")
  case True
  then have "L + 39 = (L - 40 + 39) + 40" by simp
  then have "(L + 39) div 40 = ((L - 40 + 39) + 40) div 40" by simp
  also have "\<dots> = Suc ((L - 40 + 39) div 40)" by simp
  finally show ?thesis .
next
  case False
  then have "L - 40 = 0" by simp
  moreover have "(L + 39) div 40 = 1"
    using assms False by (intro div_nat_eqI) simp_all
  ultimately show ?thesis by simp
qed

lemma upt_Suc_shift: "[0..<Suc n] = 0 # map Suc [0..<n]"
  by (simp only: upt_conv_Cons[OF zero_less_Suc] map_Suc_upt)

lemma chunk_map_step:
  "map (\<lambda>j. take 40 (drop (i + 40 * j) ms)) [0..<Suc n] =
     take 40 (drop i ms) # map (\<lambda>j. take 40 (drop (i + 40 + 40 * j) ms)) [0..<n]"
  unfolding upt_Suc_shift
  by (simp only: list.map map_map comp_def mult_Suc_right add.assoc mult_0_right add_0_right)

lemma chunk_loop_requests:
  "chunk_loop b now api ms i st = (r, st', reqs) \<Longrightarrow>
     (\<exists>rest. drop i ms = concat reqs @ rest)
     \<and> (r = None \<longrightarrow> concat reqs = drop i ms)
     \<and> (\<forall>c\<in>set reqs. c \<noteq> [] \<and> length c \<le> 40)
     \<and> (r = None \<longrightarrow>
          reqs = map (\<lambda>j. take 40 (drop (i + 40 * j) ms)) [0..<(length ms - i + 39) div 40])"
proof (induction b now api ms i st arbitrary: r st' reqs rule: chunk_loop.induct)
  case (1 b now api ms i st)
  show ?case
  proof (cases "i < length ms")
    case False
    with "1.prems" have "r = None" "reqs = []" by (simp_all add: chunk_loop_done)
    with False show ?thesis by simp
  next
    case True
    obtain exc st1 where tc: "try_chunk b now api i (take 40 (drop i ms)) st = (exc, st1)"
      by (cases "try_chunk b now api i (take 40 (drop i ms)) st")
    have split: "drop i ms = take 40 (drop i ms) @ drop (i + 40) ms"
      by (metis add.commute append_take_drop_id drop_drop)
    from True have ne: "take 40 (drop i ms) \<noteq> []" by simp
    show ?thesis
    proof (cases "exc = None \<or> exc = Some RequestException")
      case False
      with "1.prems" True tc have "r = exc" "reqs = [take 40 (drop i ms)]"
        by (simp_all add: chunk_loop_step)
      with False ne split show ?thesis by auto
    next
      case cont: True
      obtain r2 st2 reqs2 where rec: "chunk_loop b now api ms (i + 40) st1 = (r2, st2, reqs2)"
        by (cases "chunk_loop b now api ms (i + 40) st1") auto
      with "1.prems" True tc cont have eq: "r = r2" "reqs = take 40 (drop i ms) # reqs2"
        by (simp_all add: chunk_loop_step)
      have IH: "(\<exists>rest. drop (i + 40) ms = concat reqs2 @ rest)
         \<and> (r2 = None \<longrightarrow> concat reqs2 = drop (i + 40) ms)
         \<and> (\<forall>c\<in>set reqs2. c \<noteq> [] \<and> length c \<le> 40)
         \<and> (r2 = None \<longrightarrow>
              reqs2 = map (\<lambda>j. take 40 (drop (i + 40 + 40 * j) ms))
                        [0..<(length ms - (i + 40) + 39) div 40])"
        using "1.IH"[OF True refl refl tc[symmetric] cont rec] .
      have a: "\<exists>rest. drop i ms = concat reqs @ rest"
        using IH split eq by (metis append.assoc concat.simps(2))
      have b: "r = None \<longrightarrow> concat reqs = drop i ms"
      proof
        assume "r = None"
        with IH eq(1) have "concat reqs2 = drop (i + 40) ms" by blast
        with eq(2) have "concat reqs = take 40 (drop i ms) @ drop (i + 40) ms" by simp
        then show "concat reqs = drop i ms" by (simp only: split[symmetric])
      qed
      from IH have "\<forall>c\<in>set reqs2. c \<noteq> [] \<and> length c \<le> 40" by blast
      with ne eq(2) have c: "\<forall>c\<in>set reqs. c \<noteq> [] \<and> length c \<le> 40"
        by simp
      have d: "reqs = map (\<lambda>j. take 40 (drop (i + 40 * j) ms)) [0..<(length ms - i + 39) div 40]"
        if "r = None"
      proof -
        have "length ms - (i + 40) = length ms - i - 40" by simp
        with True have n: "(length ms - i + 39) div 40 =
            Suc ((length ms - (i + 40) + 39) div 40)"
          using chunk_count_step[of "length ms - i"] by simp
        from that IH eq(1) have "reqs2 = map (\<lambda>j. take 40 (drop (i + 40 + 40 * j) ms))
              [0..<(length ms - (i + 40) + 39) div 40]"
          by blast
        with eq(2) have "reqs = take 40 (drop i ms) #
            map (\<lambda>j. take 40 (drop (i + 40 + 40 * j) ms))
              [0..<(length ms - (i + 40) + 39) div 40]"
          by simp
        then show ?thesis unfolding n chunk_map_step .
      qed
      from a b c d show ?thesis by blast
    qed
  qed
qed

lemma fetch_missing_unfold:
  "fetch_missing_tempos_with_reccobeats b now api ids st =
     (if ids = [] then (Inr Map.empty, st, [])
      else if filter (missing_or_retryable b now st) ids = []
      then (Inr (load_track_features st ids), st, [])
      else (case chunk_loop b now api (filter (missing_or_retryable b now st) ids) 0 st of
              (Some e, st', requests) \<Rightarrow> (Inl e, st', requests)
            | (None, st', requests) \<Rightarrow> (Inr (load_track_features st' ids), st', requests)))"
  by (simp only: fetch_missing_tempos_with_reccobeats_def missing_ids_loop_eq
      missing_filter_store Let_def append_Nil sum.case)

lemma fetch_missing_requests:
  assumes "fetch_missing_tempos_with_reccobeats b now api ids st = (res, st', requests)"
  shows "(\<exists>rest. filter (missing_or_retryable b now st) ids = concat requests @ rest)
    \<and> ((\<exists>m. res = Inr m) \<longrightarrow>
         concat requests = filter (missing_or_retryable b now st) ids
         \<and> requests = map (\<lambda>j. take 40 (drop (40 * j) (filter (missing_or_retryable b now st) ids)))
             [0..<(length (filter (missing_or_retryable b now st) ids) + 39) div 40])
    \<and> (\<forall>c\<in>set requests. c \<noteq> [] \<and> length c \<le> 40)"
proof -
  define F where "F = filter (missing_or_retryable b now st) ids"
  have u: "fetch_missing_tempos_with_reccobeats b now api ids st =
     (if ids = [] then (Inr Map.empty, st, [])
      else if F = [] then (Inr (load_track_features st ids), st, [])
      else (case chunk_loop b now api F 0 st of
              (Some e, st', requests) \<Rightarrow> (Inl e, st', requests)
            | (None, st', requests) \<Rightarrow> (Inr (load_track_features st' ids), st', requests)))"
    unfolding F_def by (rule fetch_missing_unfold)
  have nil: "ids = [] \<Longrightarrow> F = []" by (simp add: F_def)
  have goal: "(\<exists>rest. F = concat requests @ rest)
    \<and> ((\<exists>m. res = Inr m) \<longrightarrow>
         concat requests = F
         \<and> requests = map (\<lambda>j. take 40 (drop (40 * j) F)) [0..<(length F + 39) div 40])
    \<and> (\<forall>c\<in>set requests. c \<noteq> [] \<and> length c \<le> 40)"
  proof (cases "F = []")
    case True
    with assms u have "requests = []" by (cases "ids = []") simp_all
    with True show ?thesis by simp
  next
    case False
    with nil have ne: "ids \<noteq> []" by blast
    obtain r st2 reqs where cl: "chunk_loop b now api F 0 st = (r, st2, reqs)"
      by (cases "chunk_loop b now api F 0 st") auto
    from assms u False ne cl have eq: "requests = reqs"
      by (cases r) simp_all
    from assms u False ne cl have res: "(\<exists>m. res = Inr m) \<longrightarrow> r = None"
      by (cases r) auto
    from chunk_loop_requests[OF cl] have
      a: "\<exists>rest. drop 0 F = concat reqs @ rest"
      and b: "r = None \<longrightarrow> concat reqs = drop 0 F"
      and c: "\<forall>c\<in>set reqs. c \<noteq> [] \<and> length c \<le> 40"
      and d: "r = None \<longrightarrow>
          reqs = map (\<lambda>j. take 40 (drop (0 + 40 * j) F)) [0..<(length F - 0 + 39) div 40]"
      by blast+
    note a' = a[unfolded drop_0] and b' = b[unfolded drop_0]
      and d' = d[unfolded add_0 diff_zero]
    from a' b' c d' res show ?thesis unfolding eq by blast
  qed
  then show ?thesis unfolding F_def .
qed

text \<open>
  Claim C3. When the reconciler returns its map, the identities it has sent upstream are
  exactly the requested identities that have no row or a stale row with status \<open>ok\<close> or
  \<open>no_data\<close>; whatever the outcome, it sends no other identity. In particular an
  identity whose row is \<open>no_data\<close> and not stale is in no request of any call.
\<close>

theorem reconciler_request_set:
  "(fetch_missing_tempos_with_reccobeats b now api ids st = (Inr m, st', requests) \<longrightarrow>
      set (concat requests) = {t \<in> set ids. missing_or_retryable b now st t})
   \<and> (fetch_missing_tempos_with_reccobeats b now api ids st = (res, st', requests) \<longrightarrow>
      set (concat requests) \<subseteq> {t \<in> set ids. missing_or_retryable b now st t})
   \<and> (fetch_missing_tempos_with_reccobeats b now api ids st = (res, st', requests)
      \<and> track_features st t = Some r \<and> row_fetch_status r = ''no_data''
      \<and> is_stale b now (LfStr (row_last_fetched r)) CACHE_TTL_DAYS = Inr False \<longrightarrow>
      t \<notin> set (concat requests))"
proof -
  have sub: "set (concat requests) \<subseteq> {t \<in> set ids. missing_or_retryable b now st t}"
    if "fetch_missing_tempos_with_reccobeats b now api ids st = (res, st', requests)"
    for res st' requests
  proof -
    from fetch_missing_requests[OF that] obtain rest where
      "filter (missing_or_retryable b now st) ids = concat requests @ rest" by blast
    then have "set (concat requests) \<subseteq> set (filter (missing_or_retryable b now st) ids)"
      by (metis Un_upper1 set_append)
    then show ?thesis by auto
  qed
  have eq: "set (concat requests) = {t \<in> set ids. missing_or_retryable b now st t}"
    if "fetch_missing_tempos_with_reccobeats b now api ids st = (Inr m, st', requests)"
  proof -
    from fetch_missing_requests[OF that] have
      "concat requests = filter (missing_or_retryable b now st) ids" by blast
    then show ?thesis by auto
  qed
  have fresh: "t \<notin> set (concat requests)"
    if f: "fetch_missing_tempos_with_reccobeats b now api ids st = (res, st', requests)"
      and r: "track_features st t = Some r" "row_fetch_status r = ''no_data''"
        "is_stale b now (LfStr (row_last_fetched r)) CACHE_TTL_DAYS = Inr False"
  proof -
    from r have "\<not> missing_or_retryable b now st t" by (auto simp del: is_stale_default)
    with sub[OF f] show ?thesis by auto
  qed
  show ?thesis using sub eq fresh by blast
qed

lemma save_track_features_tables:
  "save_track_features b now objs st = Inr st1 \<Longrightarrow>
     save_track_features_loop b now objs (track_features st) = Inr (track_features st1)
     \<and> user_spotify_data st1 = user_spotify_data st
     \<and> artist_top_tracks st1 = artist_top_tracks st"
  by (auto simp: save_track_features_def split: sum.splits)

lemma reconcile_payload_ok:
  assumes "payload_content p = JList content"
    and "save_track_features b now content st0 = Inr st1"
  shows "\<exists>st2. reconcile_payload b now chunk p st0 = (None, st2)
    \<and> (\<forall>k. track_features st2 k =
          (if k \<in> set chunk \<and> (\<forall>obj\<in>set content. href_id obj \<noteq> Inr (Some k))
           then Some (no_data_row b now) else track_features st1 k))"
proof -
  from save_track_features_tables[OF assms(2)] have
    loop: "save_track_features_loop b now content (track_features st0) = Inr (track_features st1)"
    by blast
  define R where "R = {sid. \<exists>obj\<in>set content. href_id obj = Inr (Some sid)}"
  have ret: "returned_ids_loop content {} = Inr R"
    using save_loop_returned[OF loop, of "{}"] by (simp add: R_def)
  define nd where "nd = filter (\<lambda>cid. cid \<notin> R) chunk"
  define st2 where "st2 = (if nd \<noteq> [] then mark_tracks_no_data b now nd st1 else st1)"
  have "reconcile_payload b now chunk p st0 = (None, st2)"
    using assms ret by (simp add: reconcile_payload_def st2_def nd_def Let_def)
  moreover have "track_features st2 k =
          (if k \<in> set chunk \<and> (\<forall>obj\<in>set content. href_id obj \<noteq> Inr (Some k))
           then Some (no_data_row b now) else track_features st1 k)" for k
  proof -
    have "track_features st2 k = (if k \<in> set nd then Some (no_data_row b now)
        else track_features st1 k)"
      by (cases "nd = []") (simp_all add: st2_def mark_tracks_no_data_def mark_loop_lookup)
    moreover have "k \<in> set nd \<longleftrightarrow>
        k \<in> set chunk \<and> (\<forall>obj\<in>set content. href_id obj \<noteq> Inr (Some k))"
      by (auto simp: nd_def R_def)
    ultimately show ?thesis by simp
  qed
  ultimately show ?thesis by blast
qed

text \<open>
  Claim C2. When the reconciler returns its map, its requests are the consecutive chunks
  of 40 of the list of missing or retryable identities (the last one may be shorter), one
  request per chunk. For a chunk whose request succeeds with a list of feature objects
  that the save accepts, the body of the loop leaves no exception and a store in which
  every identity of a returned object has a row with status \<open>ok\<close>, written from an object
  with that identity, every identity of the chunk that no returned object has is
  \<open>no_data\<close>, and every other row is as before.
\<close>

theorem reconciler_chunks_and_upserts:
  "(fetch_missing_tempos_with_reccobeats b now api ids st = (Inr m, st', requests) \<longrightarrow>
      requests = map (\<lambda>j. take 40 (drop (40 * j) (filter (missing_or_retryable b now st) ids)))
                   [0..<(length (filter (missing_or_retryable b now st) ids) + 39) div 40]
      \<and> concat requests = filter (missing_or_retryable b now st) ids
      \<and> (\<forall>c\<in>set requests. c \<noteq> [] \<and> length c \<le> 40))
   \<and> (api i chunk = Inr p \<and> payload_content p = JList content
       \<and> save_track_features b now content st0 = Inr st1 \<longrightarrow>
      (\<exists>st2. try_chunk b now api i chunk st0 = (None, st2)
         \<and> (\<forall>obj\<in>set content. \<forall>sid. href_id obj = Inr (Some sid) \<longrightarrow>
              (\<exists>obj'\<in>set content. \<exists>tv. href_id obj' = Inr (Some sid)
                 \<and> track_features st2 sid = Some (ok_row b now obj' tv)
                 \<and> row_fetch_status (ok_row b now obj' tv) = ''ok''))
         \<and> (\<forall>cid\<in>set chunk. (\<forall>obj\<in>set content. href_id obj \<noteq> Inr (Some cid)) \<longrightarrow>
              track_features st2 cid = Some (no_data_row b now)
              \<and> row_fetch_status (no_data_row b now) = ''no_data'')
         \<and> (\<forall>k. k \<notin> set chunk \<and> (\<forall>obj\<in>set content. href_id obj \<noteq> Inr (Some k)) \<longrightarrow>
              track_features st2 k = track_features st0 k)))"
proof -
  have chunks: "requests = map (\<lambda>j. take 40 (drop (40 * j) (filter (missing_or_retryable b now st) ids)))
                   [0..<(length (filter (missing_or_retryable b now st) ids) + 39) div 40]
      \<and> concat requests = filter (missing_or_retryable b now st) ids
      \<and> (\<forall>c\<in>set requests. c \<noteq> [] \<and> length c \<le> 40)"
    if "fetch_missing_tempos_with_reccobeats b now api ids st = (Inr m, st', requests)"
    using fetch_missing_requests[OF that] by blast
  have upserts: "\<exists>st2. try_chunk b now api i chunk st0 = (None, st2)
         \<and> (\<forall>obj\<in>set content. \<forall>sid. href_id obj = Inr (Some sid) \<longrightarrow>
              (\<exists>obj'\<in>set content. \<exists>tv. href_id obj' = Inr (Some sid)
                 \<and> track_features st2 sid = Some (ok_row b now obj' tv)
                 \<and> row_fetch_status (ok_row b now obj' tv) = ''ok''))
         \<and> (\<forall>cid\<in>set chunk. (\<forall>obj\<in>set content. href_id obj \<noteq> Inr (Some cid)) \<longrightarrow>
              track_features st2 cid = Some (no_data_row b now)
              \<and> row_fetch_status (no_data_row b now) = ''no_data'')
         \<and> (\<forall>k. k \<notin> set chunk \<and> (\<forall>obj\<in>set content. href_id obj \<noteq> Inr (Some k)) \<longrightarrow>
              track_features st2 k = track_features st0 k)"
    if api: "api i chunk = Inr p" and pc: "payload_content p = JList content"
      and sv: "save_track_features b now content st0 = Inr st1"
  proof -
    from reconcile_payload_ok[OF pc sv, of chunk] obtain st2 where
      rp: "reconcile_payload b now chunk p st0 = (None, st2)"
      and look: "\<And>k. track_features st2 k =
          (if k \<in> set chunk \<and> (\<forall>obj\<in>set content. href_id obj \<noteq> Inr (Some k))
           then Some (no_data_row b now) else track_features st1 k)"
      by blast
    from save_track_features_tables[OF sv] have
      loop: "save_track_features_loop b now content (track_features st0) =
        Inr (track_features st1)"
      by blast
    have tc: "try_chunk b now api i chunk st0 = (None, st2)"
      using api rp by (simp add: try_chunk_def)
    have ok: "\<exists>obj'\<in>set content. \<exists>tv. href_id obj' = Inr (Some sid)
                 \<and> track_features st2 sid = Some (ok_row b now obj' tv)
                 \<and> row_fetch_status (ok_row b now obj' tv) = ''ok''"
      if "obj \<in> set content" "href_id obj = Inr (Some sid)" for obj sid
    proof -
      from that have ex: "\<exists>obj\<in>set content. href_id obj = Inr (Some sid)" by blast
      with save_loop_lookup[OF loop, of sid] obtain obj' tv where
        "obj' \<in> set content" "href_id obj' = Inr (Some sid)"
        "track_features st1 sid = Some (ok_row b now obj' tv)"
        by blast
      moreover from ex look[of sid] have "track_features st2 sid = track_features st1 sid"
        by auto
      ultimately show ?thesis by (auto simp: ok_row_def)
    qed
    have nd: "track_features st2 cid = Some (no_data_row b now)
              \<and> row_fetch_status (no_data_row b now) = ''no_data''"
      if "cid \<in> set chunk" "\<forall>obj\<in>set content. href_id obj \<noteq> Inr (Some cid)" for cid
      using that look[of cid] by (simp add: no_data_row_def)
    have frame: "track_features st2 k = track_features st0 k"
      if "k \<notin> set chunk" "\<forall>obj\<in>set content. href_id obj \<noteq> Inr (Some k)" for k
    proof -
      from that look[of k] have "track_features st2 k = track_features st1 k" by simp
      also from save_loop_lookup[OF loop, of k] that(2) have "\<dots> = track_features st0 k"
        by blast
      finally show ?thesis .
    qed
    from tc ok nd frame show ?thesis by blast
  qed
  show ?thesis using chunks upserts by blast
qed

lemma reccobeats_href_id:
  "href_id (JObj ((''href'', JStr (''https://api.reccobeats.com/v1/track/'' @ sid)) # kvs)) =
     Inr (if takeWhile (\<lambda>c. c \<noteq> CHR ''?'') sid = [] then None
          else Some (takeWhile (\<lambda>c. c \<noteq> CHR ''?'') sid))"
proof -
  have "partition_at ''track/'' (''https://api.reccobeats.com/v1/track/'' @ sid) =
      Some (''https://api.reccobeats.com/v1/'', sid)"
    by (simp add: startswith_def)
  then show ?thesis
    by (simp add: href_id_def py_get_def extract_spotify_id_from_href_def py_in_def
        py_split1_def hd_py_split1_question[unfolded py_split1_def])
qed

lemma example_content_ids:
  "href_id (example_content ! 0) = Inr (Some ''t3'')"
  "href_id (example_content ! 1) = Inr (Some ''t5'')"
  "set example_content = {example_content ! 0, example_content ! 1}"
  using reccobeats_href_id[of "''t3''"] reccobeats_href_id[of "''t5''"]
  by (simp_all add: example_content_def)

text \<open>
  On the example table, on 2024-03-01, for the five identities \<open>t1\<close> to \<open>t5\<close>: the
  reconciler returns its map after one request for \<open>t3\<close>, \<open>t4\<close> and \<open>t5\<close>; the fresh
  \<open>no_data\<close> identity \<open>t2\<close> is not requested.
\<close>

theorem reconciler_request_set_witness:
  "''t2'' \<notin> set (concat (snd (snd (fetch_missing_tempos_with_reccobeats example_builtins
      63844848000000000 example_api [''t1'', ''t2'', ''t3'', ''t4'', ''t5''] example_store))))
   \<and> set (concat (snd (snd (fetch_missing_tempos_with_reccobeats example_builtins
      63844848000000000 example_api [''t1'', ''t2'', ''t3'', ''t4'', ''t5''] example_store))))
       \<subseteq> {''t1'', ''t2'', ''t3'', ''t4'', ''t5''}"
proof -
  define X where "X = fetch_missing_tempos_with_reccobeats example_builtins
      63844848000000000 example_api [''t1'', ''t2'', ''t3'', ''t4'', ''t5''] example_store"
  have x: "fetch_missing_tempos_with_reccobeats example_builtins
      63844848000000000 example_api [''t1'', ''t2'', ''t3'', ''t4'', ''t5''] example_store =
      (fst X, fst (snd X), snd (snd X))"
    by (simp add: X_def)
  have r: "track_features example_store ''t2'' =
      Some \<lparr>row_tempo = None, row_features_json = None,
            row_last_fetched = ''2024-03-01 00:00:00'', row_fetch_status = ''no_data''\<rparr>"
    by (simp add: example_store_def init_db_def)
  have f: "is_stale example_builtins 63844848000000000
      (LfStr (row_last_fetched \<lparr>row_tempo = None, row_features_json = None,
            row_last_fetched = ''2024-03-01 00:00:00'', row_fetch_status = ''no_data''\<rparr>))
      CACHE_TTL_DAYS = Inr False"
    by (simp add: example_builtins_def)
  have s: "row_fetch_status \<lparr>row_tempo = None, row_features_json = None,
            row_last_fetched = ''2024-03-01 00:00:00'', row_fetch_status = ''no_data''\<rparr> =
      ''no_data''"
    by simp
  note T = reconciler_request_set [of example_builtins 63844848000000000 example_api
      "[''t1'', ''t2'', ''t3'', ''t4'', ''t5'']" example_store Map.empty "fst (snd X)"
      "snd (snd X)" "fst X" "''t2''"
      "\<lparr>row_tempo = None, row_features_json = None,
        row_last_fetched = ''2024-03-01 00:00:00'', row_fetch_status = ''no_data''\<rparr>"]
  from T x r f s have a: "''t2'' \<notin> set (concat (snd (snd X)))" by blast
  from T x have "set (concat (snd (snd X))) \<subseteq>
      {t \<in> set [''t1'', ''t2'', ''t3'', ''t4'', ''t5''].
         missing_or_retryable example_builtins 63844848000000000 example_store t}"
    by blast
  then have b: "set (concat (snd (snd X))) \<subseteq> {''t1'', ''t2'', ''t3'', ''t4'', ''t5''}"
    by auto
  from a b show ?thesis unfolding X_def by blast
qed

text \<open>
  The chunk \<open>t3\<close>, \<open>t4\<close>, \<open>t5\<close> on the example table, answered with feature objects for
  \<open>t3\<close> and \<open>t5\<close>: both get an \<open>ok\<close> row, \<open>t4\<close> is marked \<open>no_data\<close>, and the row of
  \<open>t1\<close> is as before.
\<close>

theorem reconciler_chunks_and_upserts_witness:
  "\<exists>st2. try_chunk example_builtins 63844848000000000 example_api 0
        [''t3'', ''t4'', ''t5''] example_store = (None, st2)
     \<and> (\<exists>obj tv. track_features st2 ''t3'' =
           Some (ok_row example_builtins 63844848000000000 obj tv))
     \<and> (\<exists>obj tv. track_features st2 ''t5'' =
           Some (ok_row example_builtins 63844848000000000 obj tv))
     \<and> track_features st2 ''t4'' = Some (no_data_row example_builtins 63844848000000000)
     \<and> track_features st2 ''t1'' = track_features example_store ''t1''"
proof -
  have api: "example_api 0 [''t3'', ''t4'', ''t5''] =
      Inr (JObj [(''content'', JList example_content)])"
    by (simp add: example_api_def)
  have pc: "payload_content (JObj [(''content'', JList example_content)]) =
      JList example_content"
    by (simp add: payload_content_def)
  have "\<exists>tbl. save_track_features_loop example_builtins 63844848000000000 example_content
      (track_features example_store) = Inr tbl"
    using reccobeats_href_id[of "''t3''"] reccobeats_href_id[of "''t5''"]
    by (simp add: example_content_def py_get_def tempo_val_def py_float_def)
  then obtain st1 where sv: "save_track_features example_builtins 63844848000000000
      example_content example_store = Inr st1"
    by (auto simp: save_track_features_def)
  note T = reconciler_chunks_and_upserts [of example_builtins 63844848000000000 example_api
      "[]" example_store Map.empty example_store "[]" 0 "[''t3'', ''t4'', ''t5'']"
      "JObj [(''content'', JList example_content)]" example_content example_store st1]
  note U = T[THEN conjunct2, THEN mp, OF conjI[OF api conjI[OF pc sv]]]
  from U obtain st2 where
    tc: "try_chunk example_builtins 63844848000000000 example_api 0
        [''t3'', ''t4'', ''t5''] example_store = (None, st2)"
    and ok: "\<forall>obj\<in>set example_content. \<forall>sid. href_id obj = Inr (Some sid) \<longrightarrow>
        (\<exists>obj'\<in>set example_content. \<exists>tv. href_id obj' = Inr (Some sid)
           \<and> track_features st2 sid = Some (ok_row example_builtins 63844848000000000 obj' tv)
           \<and> row_fetch_status (ok_row example_builtins 63844848000000000 obj' tv) = ''ok'')"
    and nd: "\<forall>cid\<in>set [''t3'', ''t4'', ''t5''].
        (\<forall>obj\<in>set example_content. href_id obj \<noteq> Inr (Some cid)) \<longrightarrow>
        track_features st2 cid = Some (no_data_row example_builtins 63844848000000000)
        \<and> row_fetch_status (no_data_row example_builtins 63844848000000000) = ''no_data''"
    and frame: "\<forall>k. k \<notin> set [''t3'', ''t4'', ''t5'']
        \<and> (\<forall>obj\<in>set example_content. href_id obj \<noteq> Inr (Some k)) \<longrightarrow>
        track_features st2 k = track_features example_store k"
    by (elim exE conjE)
  have mem: "example_content ! 0 \<in> set example_content"
    "example_content ! 1 \<in> set example_content"
    by (simp_all add: example_content_def)
  from ok[rule_format, OF mem(1) example_content_ids(1)] have
    "\<exists>obj'\<in>set example_content. \<exists>tv. href_id obj' = Inr (Some ''t3'')
       \<and> track_features st2 ''t3'' = Some (ok_row example_builtins 63844848000000000 obj' tv)
       \<and> row_fetch_status (ok_row example_builtins 63844848000000000 obj' tv) = ''ok''"
    .
  then have t3: "\<exists>obj tv. track_features st2 ''t3'' =
           Some (ok_row example_builtins 63844848000000000 obj tv)"
    by blast
  from ok[rule_format, OF mem(2) example_content_ids(2)] have
    "\<exists>obj'\<in>set example_content. \<exists>tv. href_id obj' = Inr (Some ''t5'')
       \<and> track_features st2 ''t5'' = Some (ok_row example_builtins 63844848000000000 obj' tv)
       \<and> row_fetch_status (ok_row example_builtins 63844848000000000 obj' tv) = ''ok''"
    .
  then have t5: "\<exists>obj tv. track_features st2 ''t5'' =
           Some (ok_row example_builtins 63844848000000000 obj tv)"
    by blast
  have ne: "Inr (Some ''t3'') \<noteq> (Inr (Some ''t4'') :: py_error + string option)"
    "Inr (Some ''t5'') \<noteq> (Inr (Some ''t4'') :: py_error + string option)"
    "Inr (Some ''t3'') \<noteq> (Inr (Some ''t1'') :: py_error + string option)"
    "Inr (Some ''t5'') \<noteq> (Inr (Some ''t1'') :: py_error + string option)"
    by simp_all
  have no4: "\<forall>obj\<in>set example_content. href_id obj \<noteq> Inr (Some ''t4'')"
    unfolding example_content_ids(3) using example_content_ids(1,2) ne by simp
  have no1: "\<forall>obj\<in>set example_content. href_id obj \<noteq> Inr (Some ''t1'')"
    unfolding example_content_ids(3) using example_content_ids(1,2) ne by simp
  have in4: "''t4'' \<in> set [''t3'', ''t4'', ''t5'']" and out1: "''t1'' \<notin> set [''t3'', ''t4'', ''t5'']"
    by simp_all
  from nd in4 no4 have t4: "track_features st2 ''t4'' =
      Some (no_data_row example_builtins 63844848000000000)"
    by blast
  from frame out1 no1 have t1: "track_features st2 ''t1'' = track_features example_store ''t1''"
    by blast
  from tc t3 t5 t4 t1 show ?thesis by blast
qed

section \<open>A failed chunk\<close>

lemma reconcile_payload_frame:
  assumes "reconcile_payload b now chunk p st0 = (exc, st2)"
    and "\<And>content. payload_content p = JList content \<Longrightarrow>
           k \<notin> set chunk \<and> (\<forall>obj\<in>set content. href_id obj \<noteq> Inr (Some k))"
  shows "track_features st2 k = track_features st0 k"
proof (cases "\<exists>content. payload_content p = JList content")
  case False
  with assms(1) have "st2 = st0"
    by (cases "payload_content p") (simp_all add: reconcile_payload_def)
  then show ?thesis by simp
next
  case True
  then obtain content where pc: "payload_content p = JList content" by blast
  from assms(2)[OF pc] have k: "k \<notin> set chunk"
    and no: "\<forall>obj\<in>set content. href_id obj \<noteq> Inr (Some k)"
    by blast+
  show ?thesis
  proof (cases "save_track_features b now content st0")
    case (Inl e)
    with assms(1) pc have "st2 = st0" by (simp add: reconcile_payload_def)
    then show ?thesis by simp
  next
    case (Inr st1)
    from save_track_features_tables[OF Inr] have
      loop: "save_track_features_loop b now content (track_features st0) =
        Inr (track_features st1)"
      by blast
    from save_loop_lookup[OF loop, of k] no have s1: "track_features st1 k = track_features st0 k"
      by blast
    from reconcile_payload_ok[OF pc Inr, of chunk] obtain st2' where
      rp: "reconcile_payload b now chunk p st0 = (None, st2')"
      and look: "\<forall>k. track_features st2' k =
          (if k \<in> set chunk \<and> (\<forall>obj\<in>set content. href_id obj \<noteq> Inr (Some k))
           then Some (no_data_row b now) else track_features st1 k)"
      by blast
    from rp assms(1) have "st2 = st2'" by simp
    with look k s1 show ?thesis by simp
  qed
qed

lemma try_chunk_frame:
  assumes "try_chunk b now api i chunk st0 = (exc, st2)"
    and "\<And>p content. api i chunk = Inr p \<Longrightarrow> payload_content p = JList content \<Longrightarrow>
           k \<notin> set chunk \<and> (\<forall>obj\<in>set content. href_id obj \<noteq> Inr (Some k))"
  shows "track_features st2 k = track_features st0 k"
proof (cases "api i chunk")
  case (Inl e)
  with assms(1) show ?thesis by (simp add: try_chunk_def)
next
  case (Inr p)
  with assms(1) have "reconcile_payload b now chunk p st0 = (exc, st2)"
    by (simp add: try_chunk_def)
  then show ?thesis using assms(2)[OF Inr] by (rule reconcile_payload_frame)
qed

lemma chunk_loop_frame:
  "chunk_loop b now api ms i st = (r, st', reqs) \<Longrightarrow>
     (\<And>j p content. api j (take 40 (drop j ms)) = Inr p \<Longrightarrow> payload_content p = JList content
        \<Longrightarrow> k \<notin> set (take 40 (drop j ms)) \<and> (\<forall>obj\<in>set content. href_id obj \<noteq> Inr (Some k)))
     \<Longrightarrow> track_features st' k = track_features st k"
proof (induction b now api ms i st arbitrary: r st' reqs rule: chunk_loop.induct)
  case (1 b now api ms i st)
  show ?case
  proof (cases "i < length ms")
    case False
    with "1.prems"(1) show ?thesis by (simp add: chunk_loop_done)
  next
    case True
    obtain exc st1 where tc: "try_chunk b now api i (take 40 (drop i ms)) st = (exc, st1)"
      by (cases "try_chunk b now api i (take 40 (drop i ms)) st")
    have s1: "track_features st1 k = track_features st k"
      using tc "1.prems"(2) by (rule try_chunk_frame)
    show ?thesis
    proof (cases "exc = None \<or> exc = Some RequestException")
      case False
      with "1.prems"(1) True tc have "st' = st1" by (simp add: chunk_loop_step)
      with s1 show ?thesis by simp
    next
      case cont: True
      obtain r2 st2 reqs2 where rec: "chunk_loop b now api ms (i + 40) st1 = (r2, st2, reqs2)"
        by (cases "chunk_loop b now api ms (i + 40) st1") auto
      with "1.prems"(1) True tc cont have "st' = st2" by (simp add: chunk_loop_step)
      moreover have "track_features st2 k = track_features st1 k"
        using "1.IH"[OF True refl refl tc[symmetric] cont rec "1.prems"(2)] .
      ultimately show ?thesis using s1 by simp
    qed
  qed
qed

lemma try_chunk_no_exception:
  assumes "\<And>e. api i chunk = Inl e \<Longrightarrow> e = RequestException"
    and "\<And>p content. api i chunk = Inr p \<Longrightarrow> payload_content p = JList content \<Longrightarrow>
           \<exists>st1. save_track_features b now content st0 = Inr st1"
    and "try_chunk b now api i chunk st0 = (exc, st2)"
  shows "exc = None \<or> exc = Some RequestException"
proof (cases "api i chunk")
  case (Inl e)
  with assms(1,3) show ?thesis by (auto simp: try_chunk_def)
next
  case (Inr p)
  with assms(3) have rp: "reconcile_payload b now chunk p st0 = (exc, st2)"
    by (simp add: try_chunk_def)
  show ?thesis
  proof (cases "\<exists>content. payload_content p = JList content")
    case False
    with rp have "exc = None"
      by (cases "payload_content p") (simp_all add: reconcile_payload_def)
    then show ?thesis by simp
  next
    case True
    then obtain content where pc: "payload_content p = JList content" by blast
    from assms(2)[OF Inr pc] obtain st1 where
      "save_track_features b now content st0 = Inr st1" by blast
    from reconcile_payload_ok[OF pc this, of chunk] rp show ?thesis by auto
  qed
qed

lemma chunk_loop_no_exception:
  "chunk_loop b now api ms i st = (r, st', reqs) \<Longrightarrow>
     (\<And>i chunk e. api i chunk = Inl e \<Longrightarrow> e = RequestException) \<Longrightarrow>
     (\<And>i chunk p content st0. api i chunk = Inr p \<Longrightarrow> payload_content p = JList content \<Longrightarrow>
        \<exists>st1. save_track_features b now content st0 = Inr st1) \<Longrightarrow>
     r = None"
proof (induction b now api ms i st arbitrary: r st' reqs rule: chunk_loop.induct)
  case (1 b now api ms i st)
  show ?case
  proof (cases "i < length ms")
    case False
    with "1.prems"(1) show ?thesis by (simp add: chunk_loop_done)
  next
    case True
    obtain exc st1 where tc: "try_chunk b now api i (take 40 (drop i ms)) st = (exc, st1)"
      by (cases "try_chunk b now api i (take 40 (drop i ms)) st")
    have cont: "exc = None \<or> exc = Some RequestException"
      using "1.prems"(2) "1.prems"(3) tc by (rule try_chunk_no_exception)
    obtain r2 st2 reqs2 where rec: "chunk_loop b now api ms (i + 40) st1 = (r2, st2, reqs2)"
      by (cases "chunk_loop b now api ms (i + 40) st1") auto
    with "1.prems"(1) True tc cont have "r = r2" by (simp add: chunk_loop_step)
    moreover have "r2 = None"
      using "1.IH"[OF True refl refl tc[symmetric] cont rec "1.prems"(2) "1.prems"(3)] .
    ultimately show ?thesis by simp
  qed
qed

text \<open>
  Claim C4. A request that fails with a \<open>RequestException\<close> leaves the store as it is,
  and the loop goes on with the next chunk from that same store, so the later chunks are
  reconciled as usual. After the whole call, the row of an identity is as before the call
  (absent if it was absent) unless a request that succeeded had it in its chunk or among
  its returned identities. When every request either fails with a \<open>RequestException\<close> or
  returns feature objects that the save accepts, the call returns a map.
\<close>

theorem reconciler_failed_chunk:
  "(api i chunk = Inl RequestException \<longrightarrow>
      try_chunk b now api i chunk st0 = (Some RequestException, st0))
   \<and> (i < length ms \<and> api i (take 40 (drop i ms)) = Inl RequestException \<longrightarrow>
      chunk_loop b now api ms i st0 =
        (case chunk_loop b now api ms (i + 40) st0 of
           (r, st2, reqs) \<Rightarrow> (r, st2, take 40 (drop i ms) # reqs)))
   \<and> (fetch_missing_tempos_with_reccobeats b now api ids st = (res, st', requests)
       \<and> (\<forall>j p content.
             api j (take 40 (drop j (filter (missing_or_retryable b now st) ids))) = Inr p
             \<and> payload_content p = JList content \<longrightarrow>
             tid \<notin> set (take 40 (drop j (filter (missing_or_retryable b now st) ids)))
             \<and> (\<forall>obj\<in>set content. href_id obj \<noteq> Inr (Some tid))) \<longrightarrow>
      track_features st' tid = track_features st tid)
   \<and> ((\<forall>i chunk e. api i chunk = Inl e \<longrightarrow> e = RequestException)
       \<and> (\<forall>i chunk p content st0. api i chunk = Inr p \<and> payload_content p = JList content \<longrightarrow>
             (\<exists>st1. save_track_features b now content st0 = Inr st1)) \<longrightarrow>
      (\<exists>m. fst (fetch_missing_tempos_with_reccobeats b now api ids st) = Inr m))"
proof -
  define F where "F = filter (missing_or_retryable b now st) ids"
  have u: "fetch_missing_tempos_with_reccobeats b now api ids st =
     (if ids = [] then (Inr Map.empty, st, [])
      else if F = [] then (Inr (load_track_features st ids), st, [])
      else (case chunk_loop b now api F 0 st of
              (Some e, st', requests) \<Rightarrow> (Inl e, st', requests)
            | (None, st', requests) \<Rightarrow> (Inr (load_track_features st' ids), st', requests)))"
    unfolding F_def by (rule fetch_missing_unfold)
  have a: "api i chunk = Inl RequestException \<longrightarrow>
      try_chunk b now api i chunk st0 = (Some RequestException, st0)"
    by (simp add: try_chunk_def)
  have a': "i < length ms \<and> api i (take 40 (drop i ms)) = Inl RequestException \<longrightarrow>
      chunk_loop b now api ms i st0 =
        (case chunk_loop b now api ms (i + 40) st0 of
           (r, st2, reqs) \<Rightarrow> (r, st2, take 40 (drop i ms) # reqs))"
    by (simp add: chunk_loop_step try_chunk_def)
  have frame: "track_features st' tid = track_features st tid"
    if f: "fetch_missing_tempos_with_reccobeats b now api ids st = (res, st', requests)"
      and h: "\<forall>j p content. api j (take 40 (drop j F)) = Inr p
             \<and> payload_content p = JList content \<longrightarrow>
             tid \<notin> set (take 40 (drop j F))
             \<and> (\<forall>obj\<in>set content. href_id obj \<noteq> Inr (Some tid))"
  proof (cases "ids = [] \<or> F = []")
    case True
    with f u have "st' = st" by (cases "ids = []") simp_all
    then show ?thesis by simp
  next
    case False
    obtain r st2 reqs where cl: "chunk_loop b now api F 0 st = (r, st2, reqs)"
      by (cases "chunk_loop b now api F 0 st") auto
    with f u False have "st' = st2" by (cases r) simp_all
    moreover have "track_features st2 tid = track_features st tid"
    proof (rule chunk_loop_frame[OF cl])
      fix j p content
      assume "api j (take 40 (drop j F)) = Inr p" "payload_content p = JList content"
      with h show "tid \<notin> set (take 40 (drop j F))
          \<and> (\<forall>obj\<in>set content. href_id obj \<noteq> Inr (Some tid))"
        by blast
    qed
    ultimately show ?thesis by simp
  qed
  have total: "\<exists>m. fst (fetch_missing_tempos_with_reccobeats b now api ids st) = Inr m"
    if e: "\<forall>i chunk e. api i chunk = Inl e \<longrightarrow> e = RequestException"
      and s: "\<forall>i chunk p content st0. api i chunk = Inr p \<and> payload_content p = JList content
             \<longrightarrow> (\<exists>st1. save_track_features b now content st0 = Inr st1)"
  proof (cases "ids = [] \<or> F = []")
    case True
    with u show ?thesis by (cases "ids = []") simp_all
  next
    case False
    obtain r st2 reqs where cl: "chunk_loop b now api F 0 st = (r, st2, reqs)"
      by (cases "chunk_loop b now api F 0 st") auto
    have "r = None"
    proof (rule chunk_loop_no_exception[OF cl])
      fix i chunk e
      assume "api i chunk = Inl e"
      with e show "e = RequestException" by blast
    next
      fix i chunk p content st0
      assume "api i chunk = Inr p" "payload_content p = JList content"
      with s show "\<exists>st1. save_track_features b now content st0 = Inr st1" by blast
    qed
    with cl u False show ?thesis by simp
  qed
  from a a' frame total show ?thesis unfolding F_def by blast
qed

text \<open>
  Forty-one absent identities with the endpoint whose first request fails: the failed
  request writes nothing, the call still returns a map, the first identity (of the
  failed chunk) is still absent afterwards, and the identity of the second chunk has been
  marked \<open>no_data\<close>.
\<close>

theorem reconciler_failed_chunk_witness:
  "try_chunk example_builtins 63839664000000000 flaky_api 0 (take 40 ids41) init_db =
     (Some RequestException, init_db)
   \<and> track_features (fst (snd (fetch_missing_tempos_with_reccobeats example_builtins
        63839664000000000 flaky_api ids41 init_db))) ''a01'' = None
   \<and> (\<exists>m. fst (fetch_missing_tempos_with_reccobeats example_builtins
        63839664000000000 flaky_api ids41 init_db) = Inr m)
   \<and> track_features (fst (snd (chunk_loop example_builtins 63839664000000000 flaky_api
        ids41 0 init_db))) ''a41'' = Some (no_data_row example_builtins 63839664000000000)"
proof -
  define X where "X = fetch_missing_tempos_with_reccobeats example_builtins
        63839664000000000 flaky_api ids41 init_db"
  have x: "fetch_missing_tempos_with_reccobeats example_builtins
        63839664000000000 flaky_api ids41 init_db = (fst X, fst (snd X), snd (snd X))"
    by (simp add: X_def)
  have F: "filter (missing_or_retryable example_builtins 63839664000000000 init_db) ids41 = ids41"
    by (simp add: init_db_def)
  have fail: "flaky_api 0 (take 40 ids41) = Inl RequestException"
    "flaky_api 0 (take 40 (drop 0 ids41)) = Inl RequestException"
    by (simp_all add: flaky_api_def)
  have len: "0 < length ids41" by (simp add: ids41_def)
  have tail: "''a01'' \<notin> set (drop 1 ids41)" by (simp add: ids41_def)
  have h: "\<forall>j p content. flaky_api j (take 40 (drop j
        (filter (missing_or_retryable example_builtins 63839664000000000 init_db) ids41))) = Inr p
             \<and> payload_content p = JList content \<longrightarrow>
             ''a01'' \<notin> set (take 40 (drop j
        (filter (missing_or_retryable example_builtins 63839664000000000 init_db) ids41)))
             \<and> (\<forall>obj\<in>set content. href_id obj \<noteq> Inr (Some ''a01''))"
    unfolding F
  proof (intro allI impI)
    fix j p content
    assume a: "flaky_api j (take 40 (drop j ids41)) = Inr p \<and> payload_content p = JList content"
    then have j: "1 \<le> j" and p: "p = JObj [(''content'', JList [])]"
      by (auto simp: flaky_api_def split: if_splits)
    with a have c: "content = []" by (simp add: payload_content_def)
    have "set (take 40 (drop j ids41)) \<subseteq> set (drop j ids41)" by (rule set_take_subset)
    also have "\<dots> \<subseteq> set (drop 1 ids41)" using j by (rule set_drop_subset_set_drop)
    finally have "''a01'' \<notin> set (take 40 (drop j ids41))" using tail by blast
    with c show "''a01'' \<notin> set (take 40 (drop j ids41))
        \<and> (\<forall>obj\<in>set content. href_id obj \<noteq> Inr (Some ''a01''))"
      by simp
  qed
  have e: "\<forall>i chunk e. flaky_api i chunk = Inl e \<longrightarrow> e = RequestException"
    by (simp add: flaky_api_def)
  have s: "\<forall>i chunk p content st0. flaky_api i chunk = Inr p \<and> payload_content p = JList content
      \<longrightarrow> (\<exists>st1. save_track_features example_builtins 63839664000000000 content st0 = Inr st1)"
    by (auto simp: flaky_api_def payload_content_def save_track_features_def split: if_splits)
  note T = reconciler_failed_chunk [of flaky_api 0 "take 40 ids41" example_builtins
      63839664000000000 init_db ids41 ids41 init_db "fst X" "fst (snd X)" "snd (snd X)" "''a01''"]
  from T fail(1) have c1: "try_chunk example_builtins 63839664000000000 flaky_api 0
      (take 40 ids41) init_db = (Some RequestException, init_db)"
    by blast
  from T x h have "track_features (fst (snd X)) ''a01'' = track_features init_db ''a01''"
    by blast
  then have c2: "track_features (fst (snd X)) ''a01'' = None" by (simp add: init_db_def)
  from T e s have c3: "\<exists>m. fst X = Inr m" unfolding X_def by blast
  from T len fail(2) have step: "chunk_loop example_builtins 63839664000000000 flaky_api ids41 0
      init_db =
        (case chunk_loop example_builtins 63839664000000000 flaky_api ids41 (0 + 40) init_db of
           (r, st2, reqs) \<Rightarrow> (r, st2, take 40 (drop 0 ids41) # reqs))"
    by blast
  have l41: "length ids41 = 41" "take 40 (drop 40 ids41) = [''a41'']"
    by (simp_all add: ids41_def)
  have second: "try_chunk example_builtins 63839664000000000 flaky_api 40 [''a41''] init_db =
      (None, mark_tracks_no_data example_builtins 63839664000000000 [''a41''] init_db)"
    by (simp add: try_chunk_def flaky_api_def reconcile_payload_def payload_content_def
        save_track_features_def init_db_def)
  have "chunk_loop example_builtins 63839664000000000 flaky_api ids41 40 init_db =
      (None, mark_tracks_no_data example_builtins 63839664000000000 [''a41''] init_db,
       [[''a41'']])"
    by (simp add: chunk_loop_step[of 40] chunk_loop_done l41 second)
  with step have c4: "track_features (fst (snd (chunk_loop example_builtins 63839664000000000
      flaky_api ids41 0 init_db))) ''a41'' = Some (no_data_row example_builtins 63839664000000000)"
    by (simp add: mark_tracks_no_data_def)
  from c1 c2 c3 c4 show ?thesis unfolding X_def by blast
qed


end
